theory Spec2Isabelle
  imports Complex_Main
begin

section \<open>Alert dispatcher: \<^verbatim>\<open>src/hooks/useAlertMqtt.ts\<close>\<close>

text \<open>
  JavaScript numbers are modelled as \<open>real\<close> where they are sensor values and as \<open>int\<close>
  where they are \<^verbatim>\<open>Date.now()\<close> milliseconds; the dispatcher only compares and subtracts
  them. An optional field of an interface (\<^verbatim>\<open>vibrationRms?: number\<close>) is an \<open>option\<close>,
  \<open>None\<close> standing for \<^verbatim>\<open>undefined\<close>.
\<close>

record SensorReading =
  gridVoltage :: "real option"
  motorCurrent :: "real option"
  powerFactor :: "real option"
  gridFrequency :: "real option"
  motorSurfaceTemp :: "real option"
  bearingTemp :: "real option"
  vibrationRms :: "real option"
  dustDensity :: "real option"
  healthIndex :: "real option"

text \<open>
  \<^verbatim>\<open>getStatusColor(value, type).level\<close> comes from \<^verbatim>\<open>@/lib/thresholds\<close>, which is not among the
  source files: every definition below takes it as the parameter \<open>getStatusColor\<close>. A
  \<^verbatim>\<open>ParameterType\<close> is the string the source writes.
\<close>

datatype status_level = Normal | Warning | Critical

type_synonym ParameterType = string

record CriticalConditionResult =
  hasCritical :: bool
  reasons :: "(string \<times> real) list"
  mostSevereParameter :: "string option"
  mostSevereValue :: "real option"

text \<open>The array \<^verbatim>\<open>parametersToCheck\<close>: a field of the reading and its parameter type, in the
  order of the source.\<close>

definition parametersToCheck :: "((SensorReading \<Rightarrow> real option) \<times> ParameterType) list" where
  "parametersToCheck =
     [(vibrationRms, ''vibrationRms''),
      (motorSurfaceTemp, ''motorSurfaceTemp''),
      (bearingTemp, ''bearingTemp''),
      (motorCurrent, ''motorCurrent''),
      (gridVoltage, ''gridVoltage''),
      (powerFactor, ''powerFactor''),
      (dustDensity, ''dustDensity'')]"

text \<open>\<^verbatim>\<open>!mostSevereParameter\<close>: \<^verbatim>\<open>undefined\<close> and the empty string are falsy.\<close>

definition falsy :: "string option \<Rightarrow> bool" where
  "falsy m = (m = None \<or> m = Some [])"

text \<open>The three locals of \<^verbatim>\<open>detectCriticalConditions\<close> that the loop updates: \<^verbatim>\<open>reasons\<close>,
  \<^verbatim>\<open>mostSevereParameter\<close>, \<^verbatim>\<open>mostSevereValue\<close>. A reason string is kept as the pair of the
  name and the value it is formatted from.\<close>

type_synonym detect_locals = "(string \<times> real) list \<times> string option \<times> real option"

text \<open>The health-index check that precedes the loop.\<close>

definition health_check :: "SensorReading \<Rightarrow> real \<Rightarrow> detect_locals" where
  "health_check data healthThreshold =
     (case healthIndex data of
        None \<Rightarrow> ([], None, None)
      | Some h \<Rightarrow>
          if h < healthThreshold then ([(''Health Index'', h)], Some ''healthIndex'', Some h)
          else ([], None, None))"

text \<open>One iteration of \<^verbatim>\<open>for (const param of parametersToCheck)\<close>.\<close>

definition check_param ::
  "(real \<Rightarrow> ParameterType \<Rightarrow> status_level) \<Rightarrow> SensorReading \<Rightarrow>
   (SensorReading \<Rightarrow> real option) \<times> ParameterType \<Rightarrow> detect_locals \<Rightarrow> detect_locals" where
  "check_param getStatusColor data param acc =
     (case acc of (rs, msp, msv) \<Rightarrow>
       (case fst param data of
          None \<Rightarrow> acc
        | Some v \<Rightarrow>
            if getStatusColor v (snd param) = Critical then
              (if falsy msp \<or> msp = Some ''healthIndex''
               then (rs @ [(snd param, v)], Some (snd param), Some v)
               else (rs @ [(snd param, v)], msp, msv))
            else acc))"

definition detectCriticalConditions ::
  "(real \<Rightarrow> ParameterType \<Rightarrow> status_level) \<Rightarrow> SensorReading \<Rightarrow> real \<Rightarrow> CriticalConditionResult" where
  "detectCriticalConditions getStatusColor data healthThreshold =
     (case fold (check_param getStatusColor data) parametersToCheck
             (health_check data healthThreshold) of
        (rs, msp, msv) \<Rightarrow>
          \<lparr>hasCritical = (length rs > 0), reasons = rs,
           mostSevereParameter = msp, mostSevereValue = msv\<rparr>)"

text \<open>
  The two refs the dispatcher keeps between evaluations: \<^verbatim>\<open>lastAlertTimeRef\<close> (initially 0)
  and \<^verbatim>\<open>wasInCriticalRef\<close> (initially false).
\<close>

record AlertState =
  lastAlertTime :: int
  wasInCritical :: bool

definition initialAlertState :: AlertState where
  "initialAlertState = \<lparr>lastAlertTime = 0, wasInCritical = False\<rparr>"

text \<open>
  \<^verbatim>\<open>checkAndSendAlert\<close> is an async function: it runs up to its \<^verbatim>\<open>await\<close>, and the code
  behind the \<^verbatim>\<open>await\<close> runs when the awaited promise resolves, which with no connected
  client is three seconds later. The effect that calls it has no guard against an evaluation
  that is still waiting, so other evaluations may run in between.

  A \<open>request\<close> is the call an evaluation awaits: \<open>SendOn p v now\<close> is
  \<^verbatim>\<open>sendAlertToPLC(mostSevereParameter, mostSevereValue)\<close> together with the local \<^verbatim>\<open>now\<close> that
  the code behind the \<^verbatim>\<open>await\<close> writes to \<^verbatim>\<open>lastAlertTimeRef\<close>; \<open>SendOff\<close> is
  \<^verbatim>\<open>sendOffSignalToPLC()\<close>.
\<close>

datatype request = SendOn "string option" "real option" int | SendOff

fun is_SendOn :: "request \<Rightarrow> bool" where
  "is_SendOn (SendOn p v now) = True"
| "is_SendOn SendOff = False"

text \<open>
  \<^verbatim>\<open>checkAndSendAlert\<close> up to the \<^verbatim>\<open>await\<close>: \<open>now\<close> is \<^verbatim>\<open>Date.now()\<close>; the result is the call
  the evaluation makes and awaits, \<open>None\<close> when it returns without one. The refs are read
  here and not written. The effect that calls it returns early when the hook is disabled or
  there is no reading, so an evaluation is an evaluation of a reading that is there.
\<close>

definition checkAndSendAlert ::
  "(real \<Rightarrow> ParameterType \<Rightarrow> status_level) \<Rightarrow> real \<Rightarrow> int \<Rightarrow>
   SensorReading \<Rightarrow> int \<Rightarrow> AlertState \<Rightarrow> request option" where
  "checkAndSendAlert getStatusColor criticalHealthThreshold alertCooldown sensorData now st =
     (let criticalConditions =
            detectCriticalConditions getStatusColor sensorData criticalHealthThreshold
      in if hasCritical criticalConditions then
           (if now - lastAlertTime st < alertCooldown then None
            else Some (SendOn (mostSevereParameter criticalConditions)
                              (mostSevereValue criticalConditions) now))
         else if wasInCritical st then Some SendOff
         else None)"

text \<open>The code behind the \<^verbatim>\<open>await\<close>, run on the refs as they are when the promise resolves
  to \<open>success\<close>.\<close>

fun after_await :: "request \<Rightarrow> bool \<Rightarrow> AlertState \<Rightarrow> AlertState" where
  "after_await (SendOn p v now) success st =
     (if success then st\<lparr>lastAlertTime := now, wasInCritical := True\<rparr> else st)"
| "after_await SendOff success st =
     (if success then st\<lparr>wasInCritical := False\<rparr> else st)"

text \<open>
  The hook between two events: its refs, the calls whose promises have not resolved yet
  (oldest first), and the log of all calls made so far. An event is an evaluation of a
  reading at a clock value, or the resolution of the \<open>k\<close>-th waiting call with an outcome;
  the promises resolve in any order.
\<close>

record hook =
  refs :: AlertState
  awaiting :: "request list"
  sent :: "request list"

definition initialHook :: hook where
  "initialHook = \<lparr>refs = initialAlertState, awaiting = [], sent = []\<rparr>"

datatype hook_event = Evaluate SensorReading int | Resolve nat bool

fun hook_step ::
  "(real \<Rightarrow> ParameterType \<Rightarrow> status_level) \<Rightarrow> real \<Rightarrow> int \<Rightarrow> hook_event \<Rightarrow> hook \<Rightarrow> hook" where
  "hook_step g th cd (Evaluate sensorData now) h =
     (case checkAndSendAlert g th cd sensorData now (refs h) of
        None \<Rightarrow> h
      | Some q \<Rightarrow> h\<lparr>awaiting := awaiting h @ [q], sent := sent h @ [q]\<rparr>)"
| "hook_step g th cd (Resolve k success) h =
     (if k < length (awaiting h) then
        h\<lparr>refs := after_await (awaiting h ! k) success (refs h),
          awaiting := take k (awaiting h) @ drop (Suc k) (awaiting h)\<rparr>
      else h)"

definition run_hook ::
  "(real \<Rightarrow> ParameterType \<Rightarrow> status_level) \<Rightarrow> real \<Rightarrow> int \<Rightarrow> hook_event list \<Rightarrow> hook \<Rightarrow> hook" where
  "run_hook g th cd evs h = fold (hook_step g th cd) evs h"

text \<open>An event that is no evaluation at or after the end of the cooldown that started at
  \<open>t\<close>.\<close>

fun within_cooldown :: "int \<Rightarrow> int \<Rightarrow> hook_event \<Rightarrow> bool" where
  "within_cooldown t cd (Evaluate sensorData now) = (now - t < cd)"
| "within_cooldown t cd (Resolve k success) = True"

text \<open>Concrete inputs. \<open>vibration_status\<close> stands in for \<^verbatim>\<open>getStatusColor\<close> at these inputs:
  it knows the vibration bounds of the README's threshold table (warning from 2.8 mm/s,
  critical from 4.5 mm/s) and reports every other parameter normal.\<close>

definition vibration_status :: "real \<Rightarrow> ParameterType \<Rightarrow> status_level" where
  "vibration_status v t =
     (if t = ''vibrationRms'' then (if v < 28 / 10 then Normal else if v < 45 / 10 then Warning else Critical)
      else Normal)"

definition no_reading :: SensorReading where
  "no_reading = \<lparr>gridVoltage = None, motorCurrent = None, powerFactor = None,
     gridFrequency = None, motorSurfaceTemp = None, bearingTemp = None,
     vibrationRms = None, dustDensity = None, healthIndex = None\<rparr>"

definition shaking :: SensorReading where
  "shaking = no_reading\<lparr>vibrationRms := Some 5, motorSurfaceTemp := Some 60\<rparr>"

definition shaking_unhealthy :: SensorReading where
  "shaking_unhealthy = shaking\<lparr>healthIndex := Some 50\<rparr>"

text \<open>The hook after one critical evaluation whose ON has been acknowledged.\<close>

definition latched_hook :: hook where
  "latched_hook = run_hook vibration_status 60 30000
     [Evaluate shaking 1000000, Resolve 0 True] initialHook"

text \<open>Two readings of a sensor reading that the properties below are stated with: whether the
  health index is critical, and whether a parameter of \<^verbatim>\<open>parametersToCheck\<close> is present and
  critical. \<open>unsettled\<close> is the test under which the loop still overwrites
  \<^verbatim>\<open>mostSevereParameter\<close>.\<close>

definition health_critical :: "SensorReading \<Rightarrow> real \<Rightarrow> bool" where
  "health_critical data healthThreshold =
     (case healthIndex data of None \<Rightarrow> False | Some h \<Rightarrow> h < healthThreshold)"

definition critical_param ::
  "(real \<Rightarrow> ParameterType \<Rightarrow> status_level) \<Rightarrow> SensorReading \<Rightarrow>
   (SensorReading \<Rightarrow> real option) \<times> ParameterType \<Rightarrow> bool" where
  "critical_param getStatusColor data param =
     (case fst param data of None \<Rightarrow> False | Some v \<Rightarrow> getStatusColor v (snd param) = Critical)"

definition unsettled :: "string option \<Rightarrow> bool" where
  "unsettled m = (falsy m \<or> m = Some ''healthIndex'')"

section \<open>Diagnosis engine: \<^verbatim>\<open>src/app/ai-center/page.tsx\<close>\<close>

text \<open>\<^verbatim>\<open>FuzzyLevel\<close> and \<^verbatim>\<open>fuzzyLevelToValue\<close> of the fuzzy-membership module
  (\<^verbatim>\<open>src/unnamed/part_001\<close>); the \<^verbatim>\<open>default\<close> branch of the switch has no value of the type.\<close>

datatype UserAnswer = No | Sometimes | Yes

fun fuzzyLevelToValue :: "UserAnswer \<Rightarrow> real" where
  "fuzzyLevelToValue No = 0"
| "fuzzyLevelToValue Sometimes = 1 / 2"
| "fuzzyLevelToValue Yes = 1"

text \<open>
  The catalogs \<^verbatim>\<open>symptoms\<close> and \<^verbatim>\<open>rules\<close> are imported from \<^verbatim>\<open>@/lib/expert-system\<close>, which
  is not among the source files: they are parameters, with the fields \<^verbatim>\<open>runDiagnosis\<close>
  reads. A rule whose operator is not \<^verbatim>\<open>"OR"\<close> is combined with \<^verbatim>\<open>Math.min\<close>.
\<close>

datatype rule_operator = AND | OR

datatype rule_level = LevelA | LevelB | LevelC

record Symptom =
  symptom_id :: nat
  cfExpert :: real

record Rule =
  rule_id :: string
  symptoms :: "nat list"
  operator :: rule_operator
  level :: rule_level
  damage :: string
  solution :: string

record DiagnosisResult =
  result_id :: string
  result_level :: rule_level
  result_damage :: string
  result_solution :: string
  cfRule :: real

record Conclusion =
  percent :: real
  label :: string

text \<open>\<^verbatim>\<open>const levelScore = { A: 40, B: 70, C: 100 }\<close>.\<close>

fun levelScore :: "rule_level \<Rightarrow> real" where
  "levelScore LevelA = 40"
| "levelScore LevelB = 70"
| "levelScore LevelC = 100"

text \<open>
  \<^verbatim>\<open>Number(x.toFixed(d))\<close>: the multiple of \<open>10\<^sup>-\<^sup>d\<close> nearest to \<open>x\<close>, the larger one on a
  tie, the sign set aside first (ECMAScript, Number.prototype.toFixed). It rounds the exact
  value of the number it is given.
\<close>

definition toFixed :: "nat \<Rightarrow> real \<Rightarrow> real" where
  "toFixed d x =
     (if x < 0 then - (of_int \<lfloor>- x * 10 ^ d + 1 / 2\<rfloor> / 10 ^ d)
      else of_int \<lfloor>x * 10 ^ d + 1 / 2\<rfloor> / 10 ^ d)"

text \<open>
  \<^verbatim>\<open>Math.max(...xs)\<close> and \<^verbatim>\<open>Math.min(...xs)\<close> compare the arguments from left to right. With
  no argument they are the infinities, which are no real numbers: \<open>None\<close>.
\<close>

fun Math_max :: "real list \<Rightarrow> real option" where
  "Math_max [] = None"
| "Math_max (x # xs) = Some (fold (\<lambda>y m. if y > m then y else m) xs x)"

fun Math_min :: "real list \<Rightarrow> real option" where
  "Math_min [] = None"
| "Math_min (x # xs) = Some (fold (\<lambda>y m. if y < m then y else m) xs x)"

text \<open>\<^verbatim>\<open>symptoms.find((s) => s.id === sid)?.cfExpert\<close>.\<close>

definition expertCF :: "Symptom list \<Rightarrow> nat \<Rightarrow> real option" where
  "expertCF catalog sid = map_option cfExpert (find (\<lambda>s. symptom_id s = sid) catalog)"

text \<open>The body of \<^verbatim>\<open>rule.symptoms.forEach\<close>: a push onto \<^verbatim>\<open>cfValues\<close> when the symptom has an
  answer and an expert factor. Every \<^verbatim>\<open>UserAnswer\<close> is a non-empty string, hence truthy.\<close>

definition push_cf ::
  "Symptom list \<Rightarrow> (nat \<rightharpoonup> UserAnswer) \<Rightarrow> nat \<Rightarrow> real list \<Rightarrow> real list" where
  "push_cf catalog answers sid cfValues =
     (case (answers sid, expertCF catalog sid) of
        (Some userAnswer, Some expert) \<Rightarrow> cfValues @ [fuzzyLevelToValue userAnswer * expert]
      | _ \<Rightarrow> cfValues)"

definition cfValues_of :: "Symptom list \<Rightarrow> (nat \<rightharpoonup> UserAnswer) \<Rightarrow> Rule \<Rightarrow> real list" where
  "cfValues_of catalog answers rule = fold (push_cf catalog answers) (symptoms rule) []"

text \<open>The local \<^verbatim>\<open>cfRule\<close> of one rule; \<open>None\<close> is the early \<^verbatim>\<open>return\<close> on an empty
  \<^verbatim>\<open>cfValues\<close>.\<close>

definition computed_cfRule :: "Symptom list \<Rightarrow> (nat \<rightharpoonup> UserAnswer) \<Rightarrow> Rule \<Rightarrow> real option" where
  "computed_cfRule catalog answers rule =
     (let cfValues = cfValues_of catalog answers rule
      in if length cfValues = 0 then None
         else if operator rule = OR then Math_max cfValues else Math_min cfValues)"

text \<open>The body of \<^verbatim>\<open>rules.forEach\<close>: what the rule pushes onto \<^verbatim>\<open>output\<close>, if anything.\<close>

definition evaluate_rule ::
  "Symptom list \<Rightarrow> (nat \<rightharpoonup> UserAnswer) \<Rightarrow> Rule \<Rightarrow> DiagnosisResult option" where
  "evaluate_rule catalog answers rule =
     (case computed_cfRule catalog answers rule of
        None \<Rightarrow> None
      | Some cf \<Rightarrow>
          if cf > 0 then
            Some \<lparr>result_id = rule_id rule, result_level = level rule,
                  result_damage = damage rule, result_solution = solution rule,
                  cfRule = toFixed 2 cf\<rparr>
          else None)"

text \<open>
  The arithmetic of \<^verbatim>\<open>calculateConclusion\<close> is IEEE 754 double precision: every operation
  yields its exact result rounded to 53 significant bits, a tie going to the even neighbour.
  \<open>fl\<close> is that rounding: \<open>binade\<close> finds the exponent \<open>e\<close> with \<open>2\<^sup>e \<le> \<bar>x\<bar> < 2\<^sup>e\<^sup>+\<^sup>1\<close> (the
  search covers the exponents of the format), and the number is rounded to a multiple of
  \<open>2\<^sup>e\<^sup>-\<^sup>5\<^sup>2\<close>. Overflow and subnormal numbers do not arise here.
\<close>

definition round_even :: "real \<Rightarrow> int" where
  "round_even y =
     (let f = \<lfloor>y\<rfloor>; r = y - of_int f
      in if r < 1 / 2 then f else if 1 / 2 < r then f + 1 else if even f then f else f + 1)"

fun binade :: "nat \<Rightarrow> int \<Rightarrow> real \<Rightarrow> int" where
  "binade 0 e x = e"
| "binade (Suc n) e x =
     (if x < 2 powi e then binade n (e - 1) x
      else if 2 powi (e + 1) \<le> x then binade n (e + 1) x
      else e)"

definition fl :: "real \<Rightarrow> real" where
  "fl x =
     (if x = 0 then 0
      else let e = binade 1100 0 \<bar>x\<bar> - 52
           in sgn x * of_int (round_even (\<bar>x\<bar> / 2 powi e)) * 2 powi e)"

text \<open>\<^verbatim>\<open>calculateConclusion\<close>: the sum of the scores, the product \<^verbatim>\<open>data.length * 100\<close>, the
  quotient and the final product are each rounded as the doubles they are; the label is
  chosen from the unrounded percent, and the percent stored is \<^verbatim>\<open>Number(percent.toFixed(1))\<close>,
  kept as the decimal it is written as.\<close>

definition calculateConclusion :: "DiagnosisResult list \<Rightarrow> Conclusion option" where
  "calculateConclusion data =
     (if length data = 0 then None
      else
        let totalScore = foldl (\<lambda>sum r. fl (sum + levelScore (result_level r))) 0 data;
            pct = fl (fl (totalScore / fl (real (length data) * 100)) * 100);
            lbl = (if pct \<le> 40 then ''Minor'' else if pct \<le> 70 then ''Moderate'' else ''Severe'')
        in Some \<lparr>percent = toFixed 1 pct, label = lbl\<rparr>)"

text \<open>\<^verbatim>\<open>runDiagnosis\<close>: the results it stores with \<^verbatim>\<open>setResults\<close> and the conclusion that
  \<^verbatim>\<open>calculateConclusion\<close> stores with \<^verbatim>\<open>setConclusion\<close>.\<close>

definition runDiagnosis ::
  "Rule list \<Rightarrow> Symptom list \<Rightarrow> (nat \<rightharpoonup> UserAnswer) \<Rightarrow> DiagnosisResult list \<times> Conclusion option" where
  "runDiagnosis rules catalog answers =
     (let output =
            fold (\<lambda>rule out. case evaluate_rule catalog answers rule of
                                 None \<Rightarrow> out
                               | Some r \<Rightarrow> out @ [r])
                 rules []
      in (output, calculateConclusion output))"

text \<open>The spec's reading of a rule, to compare with: the contributions of the answered
  symptoms, in the rule's order.\<close>

definition contributions :: "Symptom list \<Rightarrow> (nat \<rightharpoonup> UserAnswer) \<Rightarrow> Rule \<Rightarrow> real list" where
  "contributions catalog answers rule =
     List.map_filter
       (\<lambda>sid. case (answers sid, expertCF catalog sid) of
                 (Some a, Some e) \<Rightarrow> Some (fuzzyLevelToValue a * e)
               | _ \<Rightarrow> None)
       (symptoms rule)"

definition averageScore :: "DiagnosisResult list \<Rightarrow> real" where
  "averageScore data = (\<Sum>r\<leftarrow>data. levelScore (result_level r)) / real (length data)"

text \<open>The percent before \<^verbatim>\<open>toFixed\<close>, for a list short enough that sum and count are exact
  (a JavaScript array has fewer than \<open>2\<^sup>3\<^sup>2\<close> elements).\<close>

definition double_percent :: "DiagnosisResult list \<Rightarrow> real" where
  "double_percent data = fl (fl (averageScore data / 100) * 100)"

text \<open>Concrete catalogs and answers: the two-symptom rule of the spec's example, with expert
  factors 0.8 and 0.6.\<close>

definition two_symptoms :: "Symptom list" where
  "two_symptoms = [\<lparr>symptom_id = 1, cfExpert = 8 / 10\<rparr>, \<lparr>symptom_id = 2, cfExpert = 6 / 10\<rparr>]"

definition and_rule :: Rule where
  "and_rule = \<lparr>rule_id = ''R1'', symptoms = [1, 2], operator = AND, level = LevelB,
     damage = ''bearing wear'', solution = ''lubricate''\<rparr>"

definition or_rule :: Rule where
  "or_rule = and_rule\<lparr>rule_id := ''R2'', operator := OR\<rparr>"

definition yes_yes :: "nat \<rightharpoonup> UserAnswer" where
  "yes_yes = [1 \<mapsto> Yes, 2 \<mapsto> Yes]"

definition yes_only :: "nat \<rightharpoonup> UserAnswer" where
  "yes_only = [1 \<mapsto> Yes]"

definition yes_no :: "nat \<rightharpoonup> UserAnswer" where
  "yes_no = [1 \<mapsto> Yes, 2 \<mapsto> No]"

definition minor_result :: DiagnosisResult where
  "minor_result = \<lparr>result_id = ''R3'', result_level = LevelA, result_damage = ''dust'',
     result_solution = ''clean'', cfRule = 1 / 2\<rparr>"

definition moderate_result :: DiagnosisResult where
  "moderate_result = minor_result\<lparr>result_id := ''R4'', result_level := LevelB\<rparr>"

definition eight_results :: "DiagnosisResult list" where
  "eight_results = replicate 7 minor_result @ [moderate_result]"

definition five_and_three :: "DiagnosisResult list" where
  "five_and_three = replicate 5 minor_result @ replicate 3 moderate_result"


section \<open>Messaging session: the MQTT module (\<^verbatim>\<open>src/unnamed/part_000\<close>)\<close>

text \<open>
  The module's globals are the fields of \<open>Session\<close>. A client object of the mqtt library is
  its identity (\<open>handle\<close>), its \<^verbatim>\<open>connected\<close> flag, which the library sets, and whether the
  listeners of \<^verbatim>\<open>connectMqtt\<close> are still registered. A callback is the number that names it.
  Three logs make the effects visible: \<open>created\<close> counts the calls of \<^verbatim>\<open>mqtt.connect\<close> that
  returned a client, \<open>notified\<close> lists the calls of the status callback, \<open>published\<close> the
  calls of \<^verbatim>\<open>client.publish\<close> on the control topic.
\<close>

record MqttClient =
  handle :: nat
  connected :: bool
  listening :: bool

datatype command = W1 string "real option" | W2

record Session =
  client :: "MqttClient option"
  isConnecting :: bool
  isCleaningUp :: bool
  connectionAttempts :: nat
  onConnectionChange :: "nat option"
  onMessageReceived :: "nat option"
  created :: nat
  notified :: "(nat \<times> bool) list"
  published :: "command list"

definition MAX_RECONNECT_ATTEMPTS :: nat where
  "MAX_RECONNECT_ATTEMPTS = 10"

definition initialSession :: Session where
  "initialSession = \<lparr>client = None, isConnecting = False, isCleaningUp = False,
     connectionAttempts = 0, onConnectionChange = None, onMessageReceived = None,
     created = 0, notified = [], published = []\<rparr>"

text \<open>\<^verbatim>\<open>onConnectionChange?.(b)\<close>.\<close>

definition notify :: "bool \<Rightarrow> Session \<Rightarrow> Session" where
  "notify b s =
     (case onConnectionChange s of
        None \<Rightarrow> s
      | Some cb \<Rightarrow> s\<lparr>notified := notified s @ [(cb, b)]\<rparr>)"

text \<open>\<^verbatim>\<open>isMqttConnected\<close>: \<^verbatim>\<open>client?.connected ?? false\<close>.\<close>

definition isMqttConnected :: "Session \<Rightarrow> bool" where
  "isMqttConnected s = (case client s of None \<Rightarrow> False | Some c \<Rightarrow> connected c)"

text \<open>
  \<^verbatim>\<open>connectMqtt(onConnect, onMessage)\<close>. \<open>connectThrows\<close> says whether \<^verbatim>\<open>mqtt.connect\<close> throws
  (the \<^verbatim>\<open>catch\<close> branch). The result is the handle of the client returned, \<open>None\<close> for
  \<^verbatim>\<open>null\<close>. The guards stand in the order of the source.
\<close>

definition connectMqtt ::
  "nat option \<Rightarrow> nat option \<Rightarrow> bool \<Rightarrow> Session \<Rightarrow> nat option \<times> Session" where
  "connectMqtt onConnect onMessage connectThrows s0 =
     (let s1 = (case onConnect of None \<Rightarrow> s0 | Some cb \<Rightarrow> s0\<lparr>onConnectionChange := Some cb\<rparr>);
          s = (case onMessage of None \<Rightarrow> s1 | Some cb \<Rightarrow> s1\<lparr>onMessageReceived := Some cb\<rparr>)
      in if isCleaningUp s then (None, s)
         else
           (case client s of
              Some c \<Rightarrow>
                if connected c then (Some (handle c), notify True s)
                else (Some (handle c), s)
            | None \<Rightarrow>
                if isConnecting s then (None, s)
                else if connectionAttempts s \<ge> MAX_RECONNECT_ATTEMPTS then (None, s)
                else
                  let s' = s\<lparr>isConnecting := True, connectionAttempts := connectionAttempts s + 1\<rparr>
                  in if connectThrows then (None, s'\<lparr>isConnecting := False\<rparr>)
                     else (Some (created s'),
                           s'\<lparr>client := Some \<lparr>handle = created s', connected = False, listening = True\<rparr>,
                              created := created s' + 1\<rparr>)))"

text \<open>
  The events of the client and the listeners \<^verbatim>\<open>connectMqtt\<close> registers for them (the
  \<^verbatim>\<open>message\<close> listener only forwards the payload and is left out, and so is the subscription
  of the \<^verbatim>\<open>connect\<close> listener). \<open>library_effect\<close> is what the library has done to the client
  when it emits the event: connected on \<^verbatim>\<open>connect\<close>, no longer connected on \<^verbatim>\<open>close\<close>; a
  \<^verbatim>\<open>reconnect\<close> event says that the library starts another connection attempt of its own
  (\<^verbatim>\<open>reconnectPeriod: 5000\<close>).
\<close>

datatype client_event = Connect | Error | Close | Reconnect | Offline

fun library_effect :: "client_event \<Rightarrow> MqttClient \<Rightarrow> MqttClient" where
  "library_effect Connect c = c\<lparr>connected := True\<rparr>"
| "library_effect Close c = c\<lparr>connected := False\<rparr>"
| "library_effect ev c = c"

fun listener :: "client_event \<Rightarrow> Session \<Rightarrow> Session" where
  "listener Connect s = notify True (s\<lparr>isConnecting := False, connectionAttempts := 0\<rparr>)"
| "listener Error s = s\<lparr>isConnecting := False\<rparr>"
| "listener Close s =
     (let s' = s\<lparr>isConnecting := False\<rparr> in if \<not> isCleaningUp s' then notify False s' else s')"
| "listener Reconnect s = s\<lparr>connectionAttempts := connectionAttempts s + 1\<rparr>"
| "listener Offline s = (if \<not> isCleaningUp s then notify False s else s)"

definition handle_event :: "client_event \<Rightarrow> Session \<Rightarrow> Session" where
  "handle_event ev s =
     (case client s of
        None \<Rightarrow> s
      | Some c \<Rightarrow>
          let s' = s\<lparr>client := Some (library_effect ev c)\<rparr>
          in if listening c then listener ev s' else s')"

text \<open>\<^verbatim>\<open>disconnectMqtt\<close>, and the callback of \<^verbatim>\<open>client.end\<close> that runs once the connection has
  ended.\<close>

definition disconnectMqtt :: "Session \<Rightarrow> Session" where
  "disconnectMqtt s =
     (case client s of
        None \<Rightarrow> s
      | Some c \<Rightarrow> s\<lparr>isCleaningUp := True, client := Some (c\<lparr>listening := False\<rparr>)\<rparr>)"

definition end_callback :: "Session \<Rightarrow> Session" where
  "end_callback s = notify False (s\<lparr>client := None, isConnecting := False, isCleaningUp := False\<rparr>)"

text \<open>
  \<^verbatim>\<open>sendAlertPayload\<close>: \<open>err\<close> says whether the publish callback receives an error. The result
  is what the promise of the caller resolves to; with no client, \<^verbatim>\<open>client?.publish\<close> is
  skipped and the promise is never resolved (\<open>None\<close>).
\<close>

definition sendAlertPayload ::
  "string option \<Rightarrow> real option \<Rightarrow> bool \<Rightarrow> Session \<Rightarrow> bool option \<times> Session" where
  "sendAlertPayload alertType alertValue err s =
     (case client s of
        None \<Rightarrow> (None, s)
      | Some c \<Rightarrow>
          (Some (\<not> err),
           s\<lparr>published := published s @
                [W1 (case alertType of None \<Rightarrow> ''CRITICAL''
                     | Some t \<Rightarrow> if t = [] then ''CRITICAL'' else t) alertValue]\<rparr>))"

text \<open>The callback of \<^verbatim>\<open>setTimeout(..., 3000)\<close> in \<^verbatim>\<open>sendAlertToPLC\<close>, on the session as it is
  when the timer fires.\<close>

definition sendAlert_after_wait ::
  "string option \<Rightarrow> real option \<Rightarrow> bool \<Rightarrow> Session \<Rightarrow> bool option \<times> Session" where
  "sendAlert_after_wait alertType alertValue err s =
     (if \<not> isMqttConnected s then (Some False, s)
      else sendAlertPayload alertType alertValue err s)"

text \<open>\<^verbatim>\<open>sendAlertToPLC\<close> (the ON command). \<open>waiting\<close> are the client events that arrive during
  the three seconds it waits when it found no connection.\<close>

definition sendAlertToPLC ::
  "string option \<Rightarrow> real option \<Rightarrow> bool \<Rightarrow> client_event list \<Rightarrow> bool \<Rightarrow> Session \<Rightarrow>
   bool option \<times> Session" where
  "sendAlertToPLC alertType alertValue connectThrows waiting err s =
     (if \<not> isMqttConnected s then
        sendAlert_after_wait alertType alertValue err
          (fold handle_event waiting (snd (connectMqtt None None connectThrows s)))
      else sendAlertPayload alertType alertValue err s)"

text \<open>\<^verbatim>\<open>sendOffSignalToPLC\<close> (the OFF command).\<close>

definition sendOffSignalToPLC :: "bool \<Rightarrow> Session \<Rightarrow> bool \<times> Session" where
  "sendOffSignalToPLC err s =
     (if \<not> isMqttConnected s then (False, s)
      else (\<not> err, s\<lparr>published := published s @ [W2]\<rparr>))"

text \<open>A sequence of connect requests, each with its two optional callbacks.\<close>

fun connect_requests ::
  "(nat option \<times> nat option) list \<Rightarrow> Session \<Rightarrow> nat option list \<times> Session" where
  "connect_requests [] s = ([], s)"
| "connect_requests (r # rs) s =
     (case connectMqtt (fst r) (snd r) False s of
        (h, s') \<Rightarrow> (case connect_requests rs s' of (hs, s'') \<Rightarrow> (h # hs, s'')))"

text \<open>Concrete sessions: one whose first connection attempt is under way, one whose client is
  connected, one whose broker stays away after the first connection attempt.\<close>

definition connecting_session :: Session where
  "connecting_session = snd (connectMqtt (Some 7) None False initialSession)"

definition connected_session :: Session where
  "connected_session = handle_event Connect (snd (connectMqtt (Some 7) None False initialSession))"

definition broker_down :: Session where
  "broker_down = fold handle_event (concat (replicate 9 [Close, Reconnect]))
     (snd (connectMqtt (Some 7) None False initialSession))"

section \<open>Prediction endpoint: \<^verbatim>\<open>src/app/api/ml/predict/route.ts\<close>\<close>

text \<open>
  The body of the predictor's answer, as \<^verbatim>\<open>mlResponse.json()\<close> yields it: no JSON at all
  (the call throws), \<^verbatim>\<open>null\<close>, or a value with the properties the handler reads. A property
  is \<open>None\<close> when it is \<^verbatim>\<open>undefined\<close> or \<^verbatim>\<open>null\<close>, so that reading a property of it throws a
  TypeError. The types \<open>'c\<close> and \<open>'r\<close> are the classification and regression objects.
\<close>

record ('c, 'r) MLPredictionResponse =
  classification :: "'c option"
  regression :: "'r option"
  readings_used :: "nat option"
  detail :: "string option"

datatype ('c, 'r) json_body = Unparseable | JsonNull | JsonValue "('c, 'r) MLPredictionResponse"

text \<open>What \<^verbatim>\<open>fetch\<close> does: it rejects (service unreachable, timeout) with a message, or it
  yields a response with \<^verbatim>\<open>ok\<close>, \<^verbatim>\<open>status\<close> and a body.\<close>

datatype ('c, 'r) fetch_result = Rejects string | Response bool nat "('c, 'r) json_body"

text \<open>The values of \<^verbatim>\<open>mlServiceError\<close>, by the expression that builds the string.\<close>

datatype service_error =
    ErrorDetail string
  | ServiceErrorStatus nat
  | ErrorMessage string
  | NotEnoughReadings

record ('h, 'c, 'r) PredictionResult =
  success :: bool
  healthScore :: 'h
  mlPrediction :: "('c \<times> 'r \<times> nat option) option"
  mlServiceStatus :: string
  mlServiceError :: "service_error option"

datatype ('h, 'c, 'r) api_response =
    Json200 "('h, 'c, 'r) PredictionResult"
  | InternalServerError500

text \<open>The inner \<^verbatim>\<open>try\<close> block: the locals \<^verbatim>\<open>mlPrediction\<close> and \<^verbatim>\<open>mlServiceError\<close> after it.\<close>

definition call_predictor ::
  "'v list \<Rightarrow> ('c, 'r) fetch_result \<Rightarrow> ('c, 'r) MLPredictionResponse option \<times> service_error option" where
  "call_predictor readings fetched =
     (if length readings \<ge> 1 then
        (case fetched of
           Rejects msg \<Rightarrow> (None, Some (ErrorMessage msg))
         | Response ok status body \<Rightarrow>
             if ok then
               (case body of
                  Unparseable \<Rightarrow> (None, Some (ErrorMessage ''SyntaxError''))
                | JsonNull \<Rightarrow> (None, None)
                | JsonValue v \<Rightarrow> (Some v, None))
             else
               (case body of
                  Unparseable \<Rightarrow> (None, Some (ServiceErrorStatus status))
                | JsonNull \<Rightarrow> (None, Some (ErrorMessage ''TypeError''))
                | JsonValue v \<Rightarrow>
                    (case detail v of
                       None \<Rightarrow> (None, Some (ServiceErrorStatus status))
                     | Some d \<Rightarrow>
                         if d = [] then (None, Some (ServiceErrorStatus status))
                         else (None, Some (ErrorDetail d)))))
      else (None, Some NotEnoughReadings))"

text \<open>
  The handler \<^verbatim>\<open>POST\<close>, from the parsed request on: \<open>healthResult\<close> is what
  \<^verbatim>\<open>calculateHealthScore\<close> returned (\<^verbatim>\<open>@/lib/calculateHealthScore\<close> is not among the source
  files). Building the answer reads \<^verbatim>\<open>mlPrediction.classification.will_fail_soon\<close> and
  \<^verbatim>\<open>mlPrediction.regression.minutes_to_failure\<close> outside the inner \<^verbatim>\<open>try\<close>: a TypeError there
  reaches the outer \<^verbatim>\<open>catch\<close>, which answers with status 500.
\<close>

definition POST ::
  "'h \<Rightarrow> 'v list \<Rightarrow> ('c, 'r) fetch_result \<Rightarrow> ('h, 'c, 'r) api_response" where
  "POST healthResult readings fetched =
     (case call_predictor readings fetched of
        (None, err) \<Rightarrow>
          Json200 \<lparr>success = True, healthScore = healthResult, mlPrediction = None,
                   mlServiceStatus = ''unavailable'', mlServiceError = err\<rparr>
      | (Some v, err) \<Rightarrow>
          (case (classification v, regression v) of
             (Some c, Some r) \<Rightarrow>
               Json200 \<lparr>success = True, healthScore = healthResult,
                        mlPrediction = Some (c, r, readings_used v),
                        mlServiceStatus = ''available'', mlServiceError = err\<rparr>
           | _ \<Rightarrow> InternalServerError500))"

definition empty_object :: "(unit, unit) MLPredictionResponse" where
  "empty_object = \<lparr>classification = None, regression = None, readings_used = None, detail = None\<rparr>"


section \<open>Properties of the alert dispatcher\<close>

lemma fold_check_param_settled:
  "\<not> unsettled msp \<Longrightarrow>
   snd (fold (check_param g data) ps (rs, msp, msv)) = (msp, msv)"
  by (induction ps arbitrary: rs) (auto simp: check_param_def unsettled_def split: option.splits)

lemma fold_check_param_unsettled:
  assumes "\<forall>p \<in> set ps. \<not> unsettled (Some (snd p))" and "unsettled msp"
  shows "snd (fold (check_param g data) ps (rs, msp, msv)) =
     (case find (critical_param g data) ps of
        None \<Rightarrow> (msp, msv)
      | Some p \<Rightarrow> (Some (snd p), fst p data))"
  using assms
proof (induction ps arbitrary: rs)
  case Nil
  then show ?case by simp
next
  case (Cons p ps)
  show ?case
  proof (cases "critical_param g data p")
    case True
    then obtain v where v: "fst p data = Some v" "g v (snd p) = Critical"
      by (auto simp: critical_param_def split: option.splits)
    have step: "check_param g data p (rs, msp, msv) = (rs @ [(snd p, v)], Some (snd p), Some v)"
      using v Cons.prems(2) by (simp add: check_param_def unsettled_def)
    have "\<not> unsettled (Some (snd p))" using Cons.prems(1) by simp
    then show ?thesis
      using True v step fold_check_param_settled [of "Some (snd p)" g data ps] by simp
  next
    case False
    then have step: "check_param g data p (rs, msp, msv) = (rs, msp, msv)"
      by (auto simp: check_param_def critical_param_def split: option.splits)
    show ?thesis using False step Cons by simp
  qed
qed

lemma parameters_named: "\<forall>p \<in> set parametersToCheck. \<not> unsettled (Some (snd p))"
  by (simp add: parametersToCheck_def unsettled_def falsy_def)

lemma health_check_unsettled: "unsettled (fst (snd (health_check data th)))"
  by (simp add: health_check_def unsettled_def falsy_def split: option.splits)

lemma health_check_eq:
  "snd (health_check data th) =
     (if health_critical data th then (Some ''healthIndex'', healthIndex data) else (None, None))"
  by (auto simp: health_check_def health_critical_def split: option.splits)

text \<open>
  Claim C2, as the code has it. The parameter reported with the alert is the first parameter
  of the evaluation order (vibration, surface temperature, bearing temperature, current,
  voltage, power factor, dust) that is present and critical, also when the health index is
  critical as well: the loop overwrites \<^verbatim>\<open>"healthIndex"\<close> with it. The health index is
  reported only when no parameter is critical. The reported value is the value of the
  reported parameter.
\<close>

theorem C2_most_severe_parameter:
  "map snd parametersToCheck =
     [''vibrationRms'', ''motorSurfaceTemp'', ''bearingTemp'', ''motorCurrent'',
      ''gridVoltage'', ''powerFactor'', ''dustDensity'']
   \<and> mostSevereParameter (detectCriticalConditions g data th) =
     (case find (critical_param g data) parametersToCheck of
        Some p \<Rightarrow> Some (snd p)
      | None \<Rightarrow> if health_critical data th then Some ''healthIndex'' else None)
   \<and> mostSevereValue (detectCriticalConditions g data th) =
     (case find (critical_param g data) parametersToCheck of
        Some p \<Rightarrow> fst p data
      | None \<Rightarrow> if health_critical data th then healthIndex data else None)"
proof -
  obtain rs msp msv where h: "health_check data th = (rs, msp, msv)"
    by (cases "health_check data th") auto
  have u: "unsettled msp" using health_check_unsettled [of data th] h by simp
  have e: "(msp, msv) = (if health_critical data th then (Some ''healthIndex'', healthIndex data) else (None, None))"
    using health_check_eq [of data th] h by simp
  have f: "snd (fold (check_param g data) parametersToCheck (rs, msp, msv)) =
     (case find (critical_param g data) parametersToCheck of
        None \<Rightarrow> (msp, msv)
      | Some p \<Rightarrow> (Some (snd p), fst p data))"
    by (rule fold_check_param_unsettled [OF parameters_named u])
  obtain rs' msp' msv' where r: "fold (check_param g data) parametersToCheck (rs, msp, msv) = (rs', msp', msv')"
    by (cases "fold (check_param g data) parametersToCheck (rs, msp, msv)") auto
  have order: "map snd parametersToCheck =
     [''vibrationRms'', ''motorSurfaceTemp'', ''bearingTemp'', ''motorCurrent'',
      ''gridVoltage'', ''powerFactor'', ''dustDensity'']"
    by (simp add: parametersToCheck_def)
  have "mostSevereParameter (detectCriticalConditions g data th) =
     (case find (critical_param g data) parametersToCheck of
        Some p \<Rightarrow> Some (snd p)
      | None \<Rightarrow> if health_critical data th then Some ''healthIndex'' else None)"
    using f e r h by (auto simp: detectCriticalConditions_def split: option.splits if_splits)
  moreover have "mostSevereValue (detectCriticalConditions g data th) =
     (case find (critical_param g data) parametersToCheck of
        Some p \<Rightarrow> fst p data
      | None \<Rightarrow> if health_critical data th then healthIndex data else None)"
    using f e r h by (auto simp: detectCriticalConditions_def split: option.splits if_splits)
  ultimately show ?thesis using order by simp
qed

text \<open>
  Claim C2 as stated fails: with a health index of 50 under the threshold 60 and a critical
  vibration of 5.0 mm/s, the alert reports the vibration, not the health index.
\<close>

theorem C2_counterexample:
  "health_critical shaking_unhealthy 60
   \<and> critical_param vibration_status shaking_unhealthy (vibrationRms, ''vibrationRms'')
   \<and> mostSevereParameter (detectCriticalConditions vibration_status shaking_unhealthy 60) = Some ''vibrationRms''
   \<and> mostSevereValue (detectCriticalConditions vibration_status shaking_unhealthy 60) = Some 5"
  by (simp add: health_critical_def critical_param_def detectCriticalConditions_def
      parametersToCheck_def check_param_def health_check_def falsy_def vibration_status_def
      shaking_unhealthy_def shaking_def no_reading_def)


lemma shaking_critical:
  "detectCriticalConditions vibration_status shaking 60 =
     \<lparr>hasCritical = True, reasons = [(''vibrationRms'', 5)],
      mostSevereParameter = Some ''vibrationRms'', mostSevereValue = Some 5\<rparr>"
  by (simp add: detectCriticalConditions_def parametersToCheck_def check_param_def
      health_check_def falsy_def vibration_status_def shaking_def no_reading_def)

lemma quiet_step:
  assumes "lastAlertTime (refs h) = t"
      and "\<forall>q \<in> set (awaiting h). \<not> is_SendOn q"
      and "within_cooldown t cd ev"
  shows "lastAlertTime (refs (hook_step g th cd ev h)) = t
       \<and> (\<forall>q \<in> set (awaiting (hook_step g th cd ev h)). \<not> is_SendOn q)
       \<and> filter is_SendOn (sent (hook_step g th cd ev h)) = filter is_SendOn (sent h)"
proof (cases ev)
  case (Evaluate r now)
  then have "now - lastAlertTime (refs h) < cd" using assms(1,3) by simp
  then have "checkAndSendAlert g th cd r now (refs h) = None
           \<or> checkAndSendAlert g th cd r now (refs h) = Some SendOff"
    by (simp add: checkAndSendAlert_def Let_def)
  then show ?thesis using Evaluate assms(1,2) by auto
next
  case (Resolve k ok)
  show ?thesis
  proof (cases "k < length (awaiting h)")
    case True
    then have "awaiting h ! k \<in> set (awaiting h)" by simp
    then have "\<not> is_SendOn (awaiting h ! k)" using assms(2) by blast
    then have q: "awaiting h ! k = SendOff" by (cases "awaiting h ! k") auto
    have "set (take k (awaiting h) @ drop (Suc k) (awaiting h)) \<subseteq> set (awaiting h)"
      using set_take_subset set_drop_subset by fastforce
    then show ?thesis using Resolve True q assms(1,2) by auto
  next
    case False
    then show ?thesis using Resolve assms(1,2) by simp
  qed
qed

lemma quiet_run:
  assumes "lastAlertTime (refs h) = t"
      and "\<forall>q \<in> set (awaiting h). \<not> is_SendOn q"
      and "\<forall>ev \<in> set evs. within_cooldown t cd ev"
  shows "lastAlertTime (refs (run_hook g th cd evs h)) = t
       \<and> filter is_SendOn (sent (run_hook g th cd evs h)) = filter is_SendOn (sent h)"
  using assms
proof (induction evs arbitrary: h)
  case Nil
  then show ?case by (simp add: run_hook_def)
next
  case (Cons ev evs)
  have w: "within_cooldown t cd ev" using Cons.prems(3) by simp
  have rest: "\<forall>ev \<in> set evs. within_cooldown t cd ev" using Cons.prems(3) by simp
  from quiet_step [OF Cons.prems(1,2) w, of g th]
  have s: "lastAlertTime (refs (hook_step g th cd ev h)) = t"
       "\<forall>q \<in> set (awaiting (hook_step g th cd ev h)). \<not> is_SendOn q"
       "filter is_SendOn (sent (hook_step g th cd ev h)) = filter is_SendOn (sent h)"
    by blast+
  from Cons.IH [OF s(1,2) rest] s(3) show ?case by (simp add: run_hook_def)
qed

text \<open>
  Claim C1, as the code has it. Take the hook once a SendOn has succeeded: the latch is set,
  the timestamp is \<open>t\<close>, and no other ON is still waiting for its acknowledgement. Then no
  evaluation whose clock is less than the cooldown after \<open>t\<close> sends ON, however many of them
  follow and however the waiting calls resolve in between, and the timestamp stays \<open>t\<close>. It
  is the cooldown test that suppresses them: the \<^verbatim>\<open>wasInCriticalRef\<close> latch is read only to
  decide on the OFF, so a critical evaluation at or after \<open>t\<close> plus the cooldown sends ON
  again although the latch is set.
\<close>

theorem C1_no_second_on_within_cooldown:
  assumes "wasInCritical (refs h)"
      and "lastAlertTime (refs h) = t"
      and "\<forall>q \<in> set (awaiting h). \<not> is_SendOn q"
      and "\<forall>ev \<in> set evs. within_cooldown t cd ev"
  shows "filter is_SendOn (sent (run_hook g th cd evs h)) = filter is_SendOn (sent h)
       \<and> lastAlertTime (refs (run_hook g th cd evs h)) = t
       \<and> (hasCritical (detectCriticalConditions g r th) \<and> \<not> now - t < cd \<longrightarrow>
            sent (hook_step g th cd (Evaluate r now) h) =
              sent h @ [SendOn (mostSevereParameter (detectCriticalConditions g r th))
                               (mostSevereValue (detectCriticalConditions g r th)) now])"
  using quiet_run [OF assms(2,3,4), of g th] assms(2)
  by (simp add: checkAndSendAlert_def Let_def)

lemma latched_hook_eq:
  "latched_hook = \<lparr>refs = \<lparr>lastAlertTime = 1000000, wasInCritical = True\<rparr>, awaiting = [],
     sent = [SendOn (Some ''vibrationRms'') (Some 5) 1000000]\<rparr>"
  by (simp add: latched_hook_def run_hook_def checkAndSendAlert_def shaking_critical
      initialHook_def initialAlertState_def)

text \<open>
  Claim C1 as stated fails: three critical evaluations, each acknowledged before the next and
  each a full cooldown window after the one before, send ON three times with no OFF in
  between, although the latch has been set since the first.
\<close>

theorem C1_counterexample:
  "sent (run_hook vibration_status 60 30000
      [Evaluate shaking 1000000, Resolve 0 True,
       Evaluate shaking 1030000, Resolve 0 True,
       Evaluate shaking 1060000, Resolve 0 True] initialHook)
   = [SendOn (Some ''vibrationRms'') (Some 5) 1000000,
      SendOn (Some ''vibrationRms'') (Some 5) 1030000,
      SendOn (Some ''vibrationRms'') (Some 5) 1060000]"
  by (simp add: run_hook_def checkAndSendAlert_def shaking_critical
      initialHook_def initialAlertState_def)

theorem C1_no_second_on_within_cooldown_witness:
  "wasInCritical (refs latched_hook) \<and> lastAlertTime (refs latched_hook) = 1000000
   \<and> awaiting latched_hook = []
   \<and> sent (run_hook vibration_status 60 30000
        [Evaluate shaking 1001000, Evaluate shaking_unhealthy 1029999, Resolve 0 True]
        latched_hook) = [SendOn (Some ''vibrationRms'') (Some 5) 1000000]
   \<and> sent (hook_step vibration_status 60 30000 (Evaluate shaking 1030000) latched_hook)
        = [SendOn (Some ''vibrationRms'') (Some 5) 1000000,
           SendOn (Some ''vibrationRms'') (Some 5) 1030000]"
proof -
  have a: "wasInCritical (refs latched_hook)" by (simp add: latched_hook_eq)
  have b: "lastAlertTime (refs latched_hook) = 1000000" by (simp add: latched_hook_eq)
  have c: "\<forall>q \<in> set (awaiting latched_hook). \<not> is_SendOn q" by (simp add: latched_hook_eq)
  have d: "\<forall>ev \<in> set [Evaluate shaking 1001000, Evaluate shaking_unhealthy 1029999, Resolve 0 True].
             within_cooldown 1000000 30000 ev" by simp
  have e: "hasCritical (detectCriticalConditions vibration_status shaking 60)
           \<and> \<not> (1030000::int) - 1000000 < 30000" by (simp add: shaking_critical)
  note inst = C1_no_second_on_within_cooldown [OF a b c d, of vibration_status 60 shaking 1030000]
  have f: "filter is_SendOn (sent (run_hook vibration_status 60 30000
        [Evaluate shaking 1001000, Evaluate shaking_unhealthy 1029999, Resolve 0 True]
        latched_hook)) = [SendOn (Some ''vibrationRms'') (Some 5) 1000000]"
    using inst by (simp add: latched_hook_eq)
  have u: "hasCritical (detectCriticalConditions vibration_status shaking_unhealthy 60)"
    by (simp add: detectCriticalConditions_def parametersToCheck_def check_param_def
      health_check_def falsy_def vibration_status_def shaking_unhealthy_def shaking_def no_reading_def)
  have g: "sent (run_hook vibration_status 60 30000
        [Evaluate shaking 1001000, Evaluate shaking_unhealthy 1029999, Resolve 0 True]
        latched_hook) = [SendOn (Some ''vibrationRms'') (Some 5) 1000000]"
    using u by (simp add: run_hook_def checkAndSendAlert_def shaking_critical latched_hook_eq)
  have h: "sent (hook_step vibration_status 60 30000 (Evaluate shaking 1030000) latched_hook)
        = [SendOn (Some ''vibrationRms'') (Some 5) 1000000,
           SendOn (Some ''vibrationRms'') (Some 5) 1030000]"
    using inst e by (simp add: shaking_critical latched_hook_eq)
  show ?thesis using a b g h f by (simp add: latched_hook_eq)
qed


text \<open>The proviso matters: a second evaluation that starts while the first still awaits its
  acknowledgement reads the old timestamp and sends ON as well.\<close>

lemma overlapping_evaluations_send_twice:
  "sent (run_hook vibration_status 60 30000
      [Evaluate shaking 1000000, Evaluate shaking 1001000, Resolve 0 True, Resolve 0 True]
      initialHook)
   = [SendOn (Some ''vibrationRms'') (Some 5) 1000000,
      SendOn (Some ''vibrationRms'') (Some 5) 1001000]"
  by (simp add: run_hook_def checkAndSendAlert_def shaking_critical
      initialHook_def initialAlertState_def)



section \<open>Properties of the diagnosis engine\<close>

lemma fold_push_cf:
  "fold (push_cf catalog answers) sids acc =
     acc @ List.map_filter
       (\<lambda>sid. case (answers sid, expertCF catalog sid) of
                 (Some a, Some e) \<Rightarrow> Some (fuzzyLevelToValue a * e)
               | _ \<Rightarrow> None) sids"
  by (induction sids arbitrary: acc)
     (auto simp: push_cf_def List.map_filter_simps split: option.splits)

lemma cfValues_contributions: "cfValues_of catalog answers rule = contributions catalog answers rule"
  by (simp add: cfValues_of_def contributions_def fold_push_cf)

lemma fold_greater: "fold (\<lambda>y m. if y > m then y else m) xs (x::real) = Max (insert x (set xs))"
proof (induction xs arbitrary: x)
  case Nil
  then show ?case by simp
next
  case (Cons y ys)
  have "Max (insert (if y > x then y else x) (set ys)) = Max (insert x (insert y (set ys)))"
    by (cases "set ys = {}") (auto simp: max_def)
  then show ?case using Cons by simp
qed

lemma fold_less: "fold (\<lambda>y m. if y < m then y else m) xs (x::real) = Min (insert x (set xs))"
proof (induction xs arbitrary: x)
  case Nil
  then show ?case by simp
next
  case (Cons y ys)
  have "Min (insert (if y < x then y else x) (set ys)) = Min (insert x (insert y (set ys)))"
    by (cases "set ys = {}") (auto simp: min_def)
  then show ?case using Cons by simp
qed

lemma Math_max_Max: "xs \<noteq> [] \<Longrightarrow> Math_max xs = Some (Max (set xs))"
  by (cases xs) (simp_all add: fold_greater)

lemma Math_min_Min: "xs \<noteq> [] \<Longrightarrow> Math_min xs = Some (Min (set xs))"
  by (cases xs) (simp_all add: fold_less)

lemma computed_cfRule_eq:
  "computed_cfRule catalog answers rule =
       (if contributions catalog answers rule = [] then None
        else if operator rule = OR then Some (Max (set (contributions catalog answers rule)))
        else Some (Min (set (contributions catalog answers rule))))"
  by (simp add: computed_cfRule_def cfValues_contributions Math_max_Max Math_min_Min)

lemma example_and: "computed_cfRule two_symptoms yes_yes and_rule = Some (6 / 10)"
  by (simp add: computed_cfRule_def cfValues_of_def push_cf_def and_rule_def yes_yes_def
      expertCF_def two_symptoms_def)

lemma example_or: "computed_cfRule two_symptoms yes_yes or_rule = Some (8 / 10)"
  by (simp add: computed_cfRule_def cfValues_of_def push_cf_def and_rule_def or_rule_def
      yes_yes_def expertCF_def two_symptoms_def)

lemma example_results:
  "map cfRule (fst (runDiagnosis [and_rule, or_rule] two_symptoms yes_yes)) = [6 / 10, 8 / 10]"
  by (simp add: runDiagnosis_def evaluate_rule_def example_and example_or toFixed_def Let_def)

text \<open>
  Claim C4. The fuzzy values are 0, 0.5 and 1; the values a rule collects are the
  contributions \<open>fuzzyLevelToValue answer * cfExpert symptom\<close> of its answered symptoms; the
  certainty factor computed for the rule is their maximum under OR and their minimum under AND
  (none when there is no contribution). For the two-symptom rule with expert factors 0.8 and
  0.6, answered Yes and Yes, it is 0.6 under AND and 0.8 under OR, and these are also the
  values the results carry (a result carries the factor rounded to two decimals).
\<close>

theorem C4_rule_certainty_factor:
  "fuzzyLevelToValue No = 0 \<and> fuzzyLevelToValue Sometimes = 1 / 2 \<and> fuzzyLevelToValue Yes = 1
   \<and> cfValues_of catalog answers rule = contributions catalog answers rule
   \<and> computed_cfRule catalog answers rule =
       (if contributions catalog answers rule = [] then None
        else if operator rule = OR then Some (Max (set (contributions catalog answers rule)))
        else Some (Min (set (contributions catalog answers rule))))
   \<and> computed_cfRule two_symptoms yes_yes and_rule = Some (6 / 10)
   \<and> computed_cfRule two_symptoms yes_yes or_rule = Some (8 / 10)
   \<and> map cfRule (fst (runDiagnosis [and_rule, or_rule] two_symptoms yes_yes)) = [6 / 10, 8 / 10]"
  using cfValues_contributions [of catalog answers rule] computed_cfRule_eq [of catalog answers rule]
    example_and example_or example_results
  by simp


lemma contributions_answered:
  "contributions catalog answers (rule\<lparr>symptoms := filter (\<lambda>sid. answers sid \<noteq> None) (symptoms rule)\<rparr>)
     = contributions catalog answers rule"
proof -
  have "List.map_filter
       (\<lambda>sid. case (answers sid, expertCF catalog sid) of
                 (Some a, Some e) \<Rightarrow> Some (fuzzyLevelToValue a * e)
               | _ \<Rightarrow> None) (filter (\<lambda>sid. answers sid \<noteq> None) sids)
     = List.map_filter
       (\<lambda>sid. case (answers sid, expertCF catalog sid) of
                 (Some a, Some e) \<Rightarrow> Some (fuzzyLevelToValue a * e)
               | _ \<Rightarrow> None) sids" for sids
    by (induction sids) (auto simp: List.map_filter_simps split: option.splits)
  then show ?thesis by (simp add: contributions_def)
qed

lemma evaluate_rule_answered:
  "evaluate_rule catalog answers (rule\<lparr>symptoms := filter (\<lambda>sid. answers sid \<noteq> None) (symptoms rule)\<rparr>)
     = evaluate_rule catalog answers rule"
  unfolding evaluate_rule_def computed_cfRule_def cfValues_contributions contributions_answered
  by (simp add: Let_def split: option.splits)

lemma contributions_unanswered:
  "\<forall>sid \<in> set (symptoms rule). answers sid = None \<Longrightarrow> contributions catalog answers rule = []"
proof -
  have "\<forall>sid \<in> set sids. answers sid = None \<Longrightarrow> List.map_filter
       (\<lambda>sid. case (answers sid, expertCF catalog sid) of
                 (Some a, Some e) \<Rightarrow> Some (fuzzyLevelToValue a * e)
               | _ \<Rightarrow> None) sids = []" for sids
    by (induction sids) (auto simp: List.map_filter_simps)
  then show "\<forall>sid \<in> set (symptoms rule). answers sid = None \<Longrightarrow> contributions catalog answers rule = []"
    by (simp add: contributions_def)
qed

lemma evaluate_rule_unanswered:
  "\<forall>sid \<in> set (symptoms rule). answers sid = None \<Longrightarrow> evaluate_rule catalog answers rule = None"
  by (simp add: evaluate_rule_def computed_cfRule_eq contributions_unanswered)

lemma fold_output:
  "fold (\<lambda>rule out. case evaluate_rule catalog answers rule of None \<Rightarrow> out | Some r \<Rightarrow> out @ [r]) rules acc
     = acc @ List.map_filter (evaluate_rule catalog answers) rules"
  by (induction rules arbitrary: acc) (auto simp: List.map_filter_simps split: option.splits)

lemma runDiagnosis_results:
  "fst (runDiagnosis rules catalog answers) = List.map_filter (evaluate_rule catalog answers) rules"
  by (simp add: runDiagnosis_def fold_output Let_def)

lemma evaluate_rule_Some:
  "evaluate_rule catalog answers rule = Some r \<Longrightarrow>
     \<exists>cf. computed_cfRule catalog answers rule = Some cf \<and> 0 < cf
        \<and> r = \<lparr>result_id = rule_id rule, result_level = level rule,
                  result_damage = damage rule, result_solution = solution rule,
                  cfRule = toFixed 2 cf\<rparr>"
  by (auto simp: evaluate_rule_def split: option.splits if_splits)

text \<open>
  Claim C5. A rule is evaluated as the same rule restricted to the symptoms that were
  answered, so an unanswered symptom takes no part in it; a rule none of whose symptoms was
  answered yields no result; the results are the results of the rules in catalog order, and
  each of them comes from a rule whose computed certainty factor is strictly positive.
\<close>

theorem C5_unanswered_and_positive:
  "evaluate_rule catalog answers rule =
     evaluate_rule catalog answers (rule\<lparr>symptoms := filter (\<lambda>sid. answers sid \<noteq> None) (symptoms rule)\<rparr>)
   \<and> ((\<forall>sid \<in> set (symptoms rule). answers sid = None) \<longrightarrow>
        evaluate_rule catalog answers rule = None)
   \<and> fst (runDiagnosis rules catalog answers) = List.map_filter (evaluate_rule catalog answers) rules
   \<and> (r \<in> set (fst (runDiagnosis rules catalog answers)) \<longrightarrow>
        (\<exists>rule \<in> set rules. \<exists>cf. computed_cfRule catalog answers rule = Some cf \<and> 0 < cf
           \<and> r = \<lparr>result_id = rule_id rule, result_level = level rule,
                  result_damage = damage rule, result_solution = solution rule,
                  cfRule = toFixed 2 cf\<rparr>))"
proof -
  have "r \<in> set (List.map_filter (evaluate_rule catalog answers) rules) \<Longrightarrow>
        \<exists>rule \<in> set rules. evaluate_rule catalog answers rule = Some r"
    by (auto simp: List.map_filter_def)
  then have "r \<in> set (fst (runDiagnosis rules catalog answers)) \<Longrightarrow>
        (\<exists>rule \<in> set rules. \<exists>cf. computed_cfRule catalog answers rule = Some cf \<and> 0 < cf
           \<and> r = \<lparr>result_id = rule_id rule, result_level = level rule,
                  result_damage = damage rule, result_solution = solution rule,
                  cfRule = toFixed 2 cf\<rparr>)"
    using evaluate_rule_Some [of catalog answers _ r] by (fastforce simp: runDiagnosis_results)
  then show ?thesis
    using evaluate_rule_answered [of catalog answers rule] evaluate_rule_unanswered [of rule answers catalog]
      runDiagnosis_results [of rules catalog answers]
    by simp
qed

lemma and_yes_only:
  "evaluate_rule two_symptoms yes_only and_rule =
     Some \<lparr>result_id = ''R1'', result_level = LevelB, result_damage = ''bearing wear'',
           result_solution = ''lubricate'', cfRule = 8 / 10\<rparr>"
  by (simp add: evaluate_rule_def computed_cfRule_def cfValues_of_def push_cf_def and_rule_def
      yes_only_def expertCF_def two_symptoms_def toFixed_def)

lemma and_yes_no: "evaluate_rule two_symptoms yes_no and_rule = None"
  by (simp add: evaluate_rule_def computed_cfRule_def cfValues_of_def push_cf_def and_rule_def
      yes_no_def expertCF_def two_symptoms_def toFixed_def)

text \<open>
  At concrete inputs: the AND rule with only its first symptom answered (Yes) is emitted with
  factor 0.8, whereas the same rule with the second symptom answered No is not emitted, so
  "not answered" is not "No"; with no answer at all the rule yields nothing.
\<close>

theorem C5_unanswered_and_positive_witness:
  "evaluate_rule two_symptoms yes_only and_rule =
     Some \<lparr>result_id = ''R1'', result_level = LevelB, result_damage = ''bearing wear'',
           result_solution = ''lubricate'', cfRule = 8 / 10\<rparr>
   \<and> evaluate_rule two_symptoms yes_no and_rule = None
   \<and> evaluate_rule two_symptoms Map.empty and_rule = None
   \<and> fst (runDiagnosis [and_rule] two_symptoms yes_only) =
       [\<lparr>result_id = ''R1'', result_level = LevelB, result_damage = ''bearing wear'',
           result_solution = ''lubricate'', cfRule = 8 / 10\<rparr>]
   \<and> computed_cfRule two_symptoms yes_only and_rule = Some (8 / 10)"
proof -
  let ?r = "\<lparr>result_id = ''R1'', result_level = LevelB, result_damage = ''bearing wear'',
           result_solution = ''lubricate'', cfRule = 8 / 10\<rparr>"
  have none: "\<forall>sid \<in> set (symptoms and_rule). Map.empty sid = (None :: UserAnswer option)" by simp
  have b: "evaluate_rule two_symptoms Map.empty and_rule = None"
    using C5_unanswered_and_positive [of two_symptoms Map.empty and_rule "[]" ?r] none by blast
  have res: "fst (runDiagnosis [and_rule] two_symptoms yes_only) = [?r]"
    using C5_unanswered_and_positive [of two_symptoms yes_only and_rule "[and_rule]" ?r]
    by (simp add: and_yes_only List.map_filter_simps)
  then have mem: "?r \<in> set (fst (runDiagnosis [and_rule] two_symptoms yes_only))" by simp
  have "\<exists>rule \<in> set [and_rule]. \<exists>cf. computed_cfRule two_symptoms yes_only rule = Some cf \<and> 0 < cf
           \<and> ?r = \<lparr>result_id = rule_id rule, result_level = level rule,
                  result_damage = damage rule, result_solution = solution rule,
                  cfRule = toFixed 2 cf\<rparr>"
    using C5_unanswered_and_positive [of two_symptoms yes_only and_rule "[and_rule]" ?r] mem by blast
  then have c: "computed_cfRule two_symptoms yes_only and_rule = Some (8 / 10)"
    by (simp add: computed_cfRule_def cfValues_of_def push_cf_def and_rule_def
      yes_only_def expertCF_def two_symptoms_def)
  show ?thesis using and_yes_only and_yes_no b res c by simp
qed


text \<open>Rounding to a double: the exponent search is right, integers below \<open>2\<^sup>5\<^sup>3\<close> are exact,
  and the relative error is at most \<open>2\<^sup>-\<^sup>5\<^sup>3\<close>.\<close>

lemma round_even_int: "round_even (of_int z) = z"
  by (simp add: round_even_def)

lemma round_even_close: "\<bar>of_int (round_even y) - y\<bar> \<le> 1 / 2"
proof -
  have "of_int \<lfloor>y\<rfloor> \<le> y" "y < of_int \<lfloor>y\<rfloor> + 1" by linarith+
  then show ?thesis by (auto simp: round_even_def Let_def)
qed


lemma binade_correct:
  assumes "2 powi E \<le> x" and "x < 2 powi (E + 1)" and "\<bar>E - e\<bar> \<le> int n"
  shows "binade n e x = E"
  using assms
proof (induction n arbitrary: e)
  case 0
  then show ?case by simp
next
  case (Suc n)
  show ?case
  proof (cases "x < 2 powi e")
    case True
    have "(2::real) powi E < 2 powi e" using Suc.prems(1) True by linarith
    then have "E < e"
      by (metis linorder_not_less one_le_numeral power_int_increasing)
    then have "\<bar>E - (e - 1)\<bar> \<le> int n" using Suc.prems(3) by linarith
    from Suc.IH [OF Suc.prems(1,2) this] True show ?thesis by simp
  next
    case False
    show ?thesis
    proof (cases "2 powi (e + 1) \<le> x")
      case True
      have "(2::real) powi (e + 1) < 2 powi (E + 1)" using Suc.prems(2) True by linarith
      then have "e + 1 < E + 1"
        by (metis linorder_not_less one_le_numeral power_int_increasing)
      then have "\<bar>E - (e + 1)\<bar> \<le> int n" using Suc.prems(3) by linarith
      from Suc.IH [OF Suc.prems(1,2) this] True False show ?thesis by simp
    next
      case ge: False
      have a: "(2::real) powi e < 2 powi (E + 1)" using False Suc.prems(2) by linarith
      have b: "(2::real) powi E < 2 powi (e + 1)" using ge Suc.prems(1) by linarith
      have "e < E + 1" using a by (metis linorder_not_less one_le_numeral power_int_increasing)
      moreover have "E < e + 1" using b by (metis linorder_not_less one_le_numeral power_int_increasing)
      ultimately have "e = E" by linarith
      then show ?thesis using False ge by simp
    qed
  qed
qed

lemma fl_between:
  assumes "2 powi E \<le> x" and "x < 2 powi (E + 1)" and "\<bar>E\<bar> \<le> 1100"
  shows "fl x = of_int (round_even (x / 2 powi (E - 52))) * 2 powi (E - 52)"
proof -
  have pos: "0 < x" using assms(1) by (smt (verit) zero_less_power_int zero_less_numeral)
  have "\<bar>E - 0\<bar> \<le> int 1100" using assms(3) by simp
  from binade_correct [OF assms(1,2) this] have "binade 1100 0 \<bar>x\<bar> = E" using pos by simp
  then show ?thesis using pos by (simp add: fl_def Let_def)
qed

lemma fl_error_between:
  assumes "2 powi E \<le> x" and "x < 2 powi (E + 1)" and "\<bar>E\<bar> \<le> 1100"
  shows "\<bar>fl x - x\<bar> \<le> x / 2 ^ 53"
proof -
  define u :: real where "u = 2 powi (E - 52)"
  have u: "0 < u" by (simp add: u_def)
  have ux: "u * 2 ^ 52 = 2 powi E"
    by (simp add: u_def power_int_diff)
  have "fl x - x = (of_int (round_even (x / u)) - x / u) * u"
    using u fl_between [OF assms] by (simp add: u_def algebra_simps)
  then have "\<bar>fl x - x\<bar> = \<bar>of_int (round_even (x / u)) - x / u\<bar> * u"
    using u by (simp add: abs_mult)
  also have "\<dots> \<le> (1 / 2) * u"
    using round_even_close [of "x / u"] u by (intro mult_right_mono) auto
  also have "\<dots> = 2 powi E / 2 ^ 53" using ux by simp
  also have "\<dots> \<le> x / 2 ^ 53" using assms(1) by (simp add: divide_right_mono)
  finally show ?thesis .
qed

lemma binade_exists:
  assumes "0 < (x::real)"
  shows "\<exists>E. 2 powi E \<le> x \<and> x < 2 powi (E + 1)"
proof -
  define E where "E = \<lfloor>log 2 x\<rfloor>"
  have p: "(2::real) powr real_of_int k = 2 powi k" for k
    by (rule powr_real_of_int') auto
  have "\<lfloor>log 2 x\<rfloor> = E" by (simp add: E_def)
  then have "2 powr real_of_int E \<le> x \<and> x < 2 powr real_of_int (E + 1)"
    using floor_log_eq_powr_iff [of x 2 E] assms by linarith
  then have "2 powi E \<le> x \<and> x < 2 powi (E + 1)" unfolding p .
  then show ?thesis by blast
qed

lemma fl_error:
  assumes "2 powi (- 1000) \<le> x" and "x \<le> 2 powi 1000"
  shows "\<bar>fl x - x\<bar> \<le> x / 2 ^ 53"
proof -
  have pos: "0 < x" using assms(1) by (smt (verit) zero_less_power_int zero_less_numeral)
  obtain E where E: "2 powi E \<le> x" "x < 2 powi (E + 1)" using binade_exists [OF pos] by blast
  have "(2::real) powi E < 2 powi 1001"
  proof -
    have "(2::real) powi 1000 < 2 powi 1001" by (intro power_int_strict_increasing) auto
    then show ?thesis using E(1) assms(2) by linarith
  qed
  then have hi: "E < 1001" by (metis linorder_not_less one_le_numeral power_int_increasing)
  have "(2::real) powi (- 1000) < 2 powi (E + 1)" using E(2) assms(1) by linarith
  then have lo: "- 1000 < E + 1" by (metis linorder_not_less one_le_numeral power_int_increasing)
  have "\<bar>E\<bar> \<le> 1100" using lo hi by linarith
  from fl_error_between [OF E this] show ?thesis .
qed

lemma fl_nat:
  assumes "m < 2 ^ 53"
  shows "fl (real m) = real m"
proof (cases "m = 0")
  case True
  then show ?thesis by (simp add: fl_def)
next
  case False
  then have "1 \<le> m" by simp
  then obtain k where k: "2 ^ k \<le> m" "m < 2 ^ (k + 1)"
    using ex_power_ivl1 [of 2 m] by auto
  have k53: "k < 53"
  proof (rule power_less_imp_less_exp)
    show "(1::nat) < 2" by simp
    show "(2::nat) ^ k < 2 ^ 53" using k(1) assms by linarith
  qed
  have lo: "2 powi (int k) \<le> real m"
    using k(1) by (metis of_nat_le_iff of_nat_numeral of_nat_power power_int_of_nat)
  have hi: "real m < 2 powi (int k + 1)"
  proof -
    have "real m < 2 ^ (k + 1)" using k(2) by (metis of_nat_less_iff of_nat_numeral of_nat_power)
    moreover have "(2::real) powi (int k + 1) = 2 ^ (k + 1)"
      by (metis of_nat_Suc Suc_eq_plus1 power_int_of_nat add.commute of_nat_add of_nat_1)
    ultimately show ?thesis by simp
  qed
  have b: "\<bar>int k\<bar> \<le> 1100" using k53 by simp
  have "int k - 52 = - int (52 - k)" using k53 by simp
  then have "(2::real) powi (int k - 52) = inverse (2 powi int (52 - k))"
    by (simp only: power_int_minus)
  then have u: "(2::real) powi (int k - 52) = 1 / 2 ^ (52 - k)"
    by (simp add: inverse_eq_divide)
  have "real m / 2 powi (int k - 52) = of_int (int (m * 2 ^ (52 - k)))"
    by (simp add: u)
  then have "round_even (real m / 2 powi (int k - 52)) = int (m * 2 ^ (52 - k))"
    using round_even_int by metis
  then show ?thesis
    using fl_between [OF lo hi b] by (simp add: u)
qed

lemma total_nat:
  "\<exists>m::nat. (\<Sum>r\<leftarrow>data. levelScore (result_level r)) = real m
      \<and> 40 * length data \<le> m \<and> m \<le> 100 * length data"
proof (induction data)
  case Nil
  then show ?case by simp
next
  case (Cons r data)
  then obtain m :: nat where m: "(\<Sum>r\<leftarrow>data. levelScore (result_level r)) = real m"
      "40 * length data \<le> m" "m \<le> 100 * length data" by blast
  obtain s :: nat where s: "levelScore (result_level r) = real s" "40 \<le> s" "s \<le> 100"
    by (cases "result_level r") (auto intro: that [of 40] that [of 70] that [of 100])
  have "(\<Sum>r\<leftarrow>r # data. levelScore (result_level r)) = real (s + m)" using m(1) s(1) by simp
  moreover have "40 * length (r # data) \<le> s + m" using m(2) s(2) by simp
  moreover have "s + m \<le> 100 * length (r # data)" using m(3) s(3) by simp
  ultimately show ?case by blast
qed

lemma foldl_fl_exact:
  assumes "a + 100 * length data < 2 ^ 53"
  shows "foldl (\<lambda>sum r. fl (sum + levelScore (result_level r))) (real a) data
           = real a + (\<Sum>r\<leftarrow>data. levelScore (result_level r))"
  using assms
proof (induction data arbitrary: a)
  case Nil
  then show ?case by simp
next
  case (Cons r data)
  obtain s :: nat where s: "levelScore (result_level r) = real s" "s \<le> 100"
    by (cases "result_level r") (auto intro: that [of 40] that [of 70] that [of 100])
  have small: "a + s < 2 ^ 53" using Cons.prems s(2) by simp
  have step: "fl (real a + levelScore (result_level r)) = real (a + s)"
    using fl_nat [OF small] s(1) by simp
  have "(a + s) + 100 * length data < 2 ^ 53" using Cons.prems s(2) by simp
  from Cons.IH [OF this] step s(1) show ?case by simp
qed

lemma calculateConclusion_doubles:
  assumes "data \<noteq> []" and "length data < 2 ^ 32"
  shows "calculateConclusion data =
     Some \<lparr>percent = toFixed 1 (double_percent data),
           label = (if double_percent data \<le> 40 then ''Minor''
                    else if double_percent data \<le> 70 then ''Moderate'' else ''Severe'')\<rparr>"
proof -
  have "100 * length data < 100 * 2 ^ 32" using assms(2) by simp
  also have "\<dots> < (2::nat) ^ 53" by simp
  finally have small: "100 * length data < 2 ^ 53" .
  then have "0 + 100 * length data < 2 ^ 53" by simp
  from foldl_fl_exact [OF this]
  have total: "foldl (\<lambda>sum r. fl (sum + levelScore (result_level r))) 0 data
      = (\<Sum>r\<leftarrow>data. levelScore (result_level r))" by simp
  have "length data * 100 < 2 ^ 53" using small by (simp add: mult.commute)
  from fl_nat [OF this] have n100: "fl (real (length data) * 100) = real (length data) * 100"
    by simp
  have n0: "real (length data) \<noteq> 0" using assms(1) by simp
  have q: "(\<Sum>r\<leftarrow>data. levelScore (result_level r)) / (real (length data) * 100)
      = averageScore data / 100"
    by (simp add: averageScore_def)
  show ?thesis
    using assms(1) unfolding calculateConclusion_def Let_def total n100 q double_percent_def
    by simp
qed


lemma average_nat:
  assumes "data \<noteq> []"
  shows "\<exists>m::nat. averageScore data = real m / real (length data)
      \<and> 40 * length data \<le> m \<and> m \<le> 100 * length data"
  using total_nat [of data] by (auto simp: averageScore_def)

lemma double_percent_forty: "fl (fl (2 / 5) * 100) = 40"
proof -
  have a: "fl (2 / 5) = 3602879701896397 / 9007199254740992"
    using fl_between [of "-2" "2 / 5"] by (simp add: round_even_def power_int_minus)
  have b: "fl (3602879701896397 / 9007199254740992 * 100) = 40"
    using fl_between [of 5 "3602879701896397 / 9007199254740992 * 100"]
    by (simp add: round_even_def power_int_minus)
  show ?thesis unfolding a b ..
qed

lemma double_percent_seventy: "fl (fl (7 / 10) * 100) = 70"
proof -
  have a: "fl (7 / 10) = 6305039478318694 / 9007199254740992"
    using fl_between [of "-1" "7 / 10"] by (simp add: round_even_def power_int_minus)
  have b: "fl (6305039478318694 / 9007199254740992 * 100) = 70"
    using fl_between [of 6 "6305039478318694 / 9007199254740992 * 100"]
    by (simp add: round_even_def power_int_minus)
  show ?thesis unfolding a b ..
qed

lemma double_percent_close:
  assumes "2 / 5 \<le> r" and "r \<le> 1"
  shows "\<bar>fl (fl r * 100) - r * 100\<bar> \<le> 300 / 2 ^ 53"
proof -
  have lo: "(2::real) powi (- 1000) \<le> 1 / 4"
  proof -
    have "(2::real) powi (- 1000) \<le> 2 powi (- 2)" by (intro power_int_increasing) auto
    then show ?thesis by (simp add: power_int_minus)
  qed
  have hi: "(256::real) \<le> 2 powi 1000"
  proof -
    have "(2::real) powi 8 \<le> 2 powi 1000" by (intro power_int_increasing) auto
    then show ?thesis by simp
  qed
  have e1: "\<bar>fl r - r\<bar> \<le> r / 2 ^ 53"
    using fl_error [of r] lo hi assms by linarith
  then have e1': "\<bar>fl r - r\<bar> \<le> 1 / 2 ^ 53"
    using assms(2) by (smt (verit) divide_right_mono zero_le_power zero_le_numeral)
  have t: "(1::real) / 2 ^ 53 \<le> 1 / 100" by simp
  have q1: "fl r \<le> 2" and q2: "39 / 100 \<le> fl r"
    using e1' t assms by linarith+
  have e2: "\<bar>fl (fl r * 100) - fl r * 100\<bar> \<le> fl r * 100 / 2 ^ 53"
    using fl_error [of "fl r * 100"] lo hi q1 q2 by linarith
  have "fl r * 100 / 2 ^ 53 \<le> 200 / 2 ^ 53"
    using q1 by (intro divide_right_mono) auto
  then have e2': "\<bar>fl (fl r * 100) - fl r * 100\<bar> \<le> 200 / 2 ^ 53" using e2 by linarith
  have "\<bar>fl r * 100 - r * 100\<bar> \<le> 100 / 2 ^ 53" using e1' by linarith
  then show ?thesis using e2' by linarith
qed


lemma double_percent_facts:
  assumes "data \<noteq> []" and "length data < 2 ^ 32"
  shows "(double_percent data \<le> 40 \<longleftrightarrow> averageScore data \<le> 40)
       \<and> (double_percent data \<le> 70 \<longleftrightarrow> averageScore data \<le> 70)
       \<and> (\<exists>k::int. toFixed 1 (double_percent data) = of_int k / 10
             \<and> \<bar>of_int k / 10 - averageScore data\<bar> \<le> 1 / 20)"
proof -
  define n where "n = length data"
  define N where "N = real n"
  define p where "p = double_percent data"
  obtain m :: nat where m: "averageScore data = real m / real n" "40 * n \<le> m" "m \<le> 100 * n"
    using average_nat [OF assms(1)] unfolding n_def by blast
  define M where "M = real m"
  have npos: "0 < n" using assms(1) by (simp add: n_def)
  have Npos: "0 < N" using npos by (simp add: N_def)
  have avg: "averageScore data = M / N" using m(1) by (simp add: M_def N_def)
  have "real (40 * n) \<le> real m" using m(2) by (rule of_nat_mono)
  then have lo: "40 * N \<le> M" by (simp add: M_def N_def)
  have "real m \<le> real (100 * n)" using m(3) by (rule of_nat_mono)
  then have hi: "M \<le> 100 * N" by (simp add: M_def N_def)
  have r1: "2 / 5 \<le> averageScore data / 100"
    using lo Npos by (simp add: avg pos_le_divide_eq)
  have r2: "averageScore data / 100 \<le> 1"
    using hi Npos by (simp add: avg pos_divide_le_eq)
  have close: "\<bar>p - M / N\<bar> \<le> 300 / 2 ^ 53"
    using double_percent_close [OF r1 r2] by (simp add: p_def double_percent_def avg)
  have "n \<le> 2 ^ 32" using assms(2) by (simp add: n_def)
  then have "real n \<le> real (2 ^ 32)" by (rule of_nat_mono)
  then have Nle: "N \<le> 2 ^ 32" by (simp add: N_def)
  have "p * N - M = (p - M / N) * N" using Npos by (simp add: field_simps)
  then have "\<bar>p * N - M\<bar> = \<bar>p - M / N\<bar> * N" using Npos by (simp add: abs_mult)
  also have "\<dots> \<le> (300 / 2 ^ 53) * N" using close Npos by (intro mult_right_mono) auto
  also have "\<dots> \<le> (300 / 2 ^ 53) * 2 ^ 32" using Nle by (intro mult_left_mono) auto
  also have "\<dots> < 1 / 20" by simp
  finally have d: "\<bar>p * N - M\<bar> < 1 / 20" .
  have p40: "p \<le> 40 \<longleftrightarrow> p * N \<le> 40 * N" using Npos by simp
  have p70: "p \<le> 70 \<longleftrightarrow> p * N \<le> 70 * N" using Npos by simp
  have a40: "averageScore data \<le> 40 \<longleftrightarrow> M \<le> 40 * N" using Npos by (simp add: avg pos_divide_le_eq)
  have a70: "averageScore data \<le> 70 \<longleftrightarrow> M \<le> 70 * N" using Npos by (simp add: avg pos_divide_le_eq)
  have forty: "p \<le> 40 \<longleftrightarrow> averageScore data \<le> 40"
  proof (cases "m = 40 * n")
    case True
    then have "M = 40 * N" unfolding M_def N_def by simp
    then have "averageScore data = 40" using Npos by (simp add: avg)
    then have "p = 40" by (simp add: p_def double_percent_def double_percent_forty)
    then show ?thesis using \<open>averageScore data = 40\<close> by simp
  next
    case False
    then have "40 * n + 1 \<le> m" using m(2) by simp
    then have "real (40 * n + 1) \<le> real m" by (rule of_nat_mono)
    then have "40 * N + 1 \<le> M" by (simp add: M_def N_def)
    then show ?thesis using d p40 a40 by linarith
  qed
  have seventy: "p \<le> 70 \<longleftrightarrow> averageScore data \<le> 70"
  proof (cases "m = 70 * n")
    case True
    then have "M = 70 * N" unfolding M_def N_def by simp
    then have "averageScore data = 70" using Npos by (simp add: avg)
    then have "p = 70" by (simp add: p_def double_percent_def double_percent_seventy)
    then show ?thesis using \<open>averageScore data = 70\<close> by simp
  next
    case False
    then consider "m + 1 \<le> 70 * n" | "70 * n + 1 \<le> m" by linarith
    then show ?thesis
    proof cases
      case 1
      then have "real (m + 1) \<le> real (70 * n)" by (rule of_nat_mono)
      then have "M + 1 \<le> 70 * N" by (simp add: M_def N_def)
      then show ?thesis using d p70 a70 by linarith
    next
      case 2
      then have "real (70 * n + 1) \<le> real m" by (rule of_nat_mono)
      then have "70 * N + 1 \<le> M" by (simp add: M_def N_def)
      then show ?thesis using d p70 a70 by linarith
    qed
  qed
  have ppos: "0 \<le> p"
  proof -
    have "real 1 \<le> real n" using npos by (intro of_nat_mono) simp
    then have "1 \<le> N" by (simp add: N_def)
    then have "0 \<le> p * N" using d lo by linarith
    then show ?thesis using Npos by (simp add: zero_le_mult_iff)
  qed
  define k where "k = \<lfloor>p * 10 + 1 / 2\<rfloor>"
  have fixed: "toFixed 1 p = of_int k / 10" using ppos by (simp add: toFixed_def k_def)
  have k1: "of_int k \<le> p * 10 + 1 / 2" unfolding k_def by (rule of_int_floor_le)
  have k2: "p * 10 + 1 / 2 < of_int k + 1" unfolding k_def by linarith
  have K1: "2 * of_int k * N \<le> 20 * (p * N) + N"
  proof -
    have "of_int k * (2 * N) \<le> (p * 10 + 1 / 2) * (2 * N)"
      using k1 Npos by (intro mult_right_mono) auto
    then show ?thesis by (simp add: algebra_simps)
  qed
  have K2: "20 * (p * N) + N < 2 * of_int k * N + 2 * N"
  proof -
    have "(p * 10 + 1 / 2) * (2 * N) < (of_int k + 1) * (2 * N)"
      using k2 Npos by (intro mult_strict_right_mono) auto
    then show ?thesis by (simp add: algebra_simps)
  qed
  have up: "2 * of_int k * N - 20 * M - N \<le> 0"
  proof -
    have "2 * of_int k * N - 20 * M - N < 1" using K1 d by linarith
    then have "real_of_int (2 * k * int n - 20 * int m - int n) < 1"
      by (simp add: M_def N_def)
    then have "2 * k * int n - 20 * int m - int n < 1" by linarith
    then have "2 * k * int n - 20 * int m - int n \<le> 0" by simp
    then have "real_of_int (2 * k * int n - 20 * int m - int n) \<le> 0" by linarith
    then show ?thesis by (simp add: M_def N_def)
  qed
  have down: "20 * M - 2 * of_int k * N - N \<le> 0"
  proof -
    have "20 * M - 2 * of_int k * N - N < 1" using K2 d by linarith
    then have "real_of_int (20 * int m - 2 * k * int n - int n) < 1"
      by (simp add: M_def N_def)
    then have "20 * int m - 2 * k * int n - int n < 1" by linarith
    then have "20 * int m - 2 * k * int n - int n \<le> 0" by simp
    then have "real_of_int (20 * int m - 2 * k * int n - int n) \<le> 0" by linarith
    then show ?thesis by (simp add: M_def N_def)
  qed
  have "of_int k / 10 - M / N = (2 * of_int k * N - 20 * M) / (20 * N)"
    using Npos by (simp add: field_simps)
  moreover have "\<bar>2 * of_int k * N - 20 * M\<bar> \<le> N" using up down by linarith
  ultimately have "\<bar>of_int k / 10 - M / N\<bar> \<le> N / (20 * N)"
    using Npos by (simp add: abs_divide divide_right_mono)
  then have near: "\<bar>of_int k / 10 - averageScore data\<bar> \<le> 1 / 20"
    using Npos by (simp add: avg)
  show ?thesis using forty seventy fixed near unfolding p_def by blast
qed

lemma runDiagnosis_no_answers: "runDiagnosis rules catalog Map.empty = ([], None)"
proof -
  have "List.map_filter (evaluate_rule catalog Map.empty) rules = []"
    by (induction rules) (simp_all add: List.map_filter_simps evaluate_rule_unanswered)
  then have "fst (runDiagnosis rules catalog Map.empty) = []"
    by (simp add: runDiagnosis_results)
  then show ?thesis
    by (simp add: runDiagnosis_def Let_def calculateConclusion_def)
qed

text \<open>
  Claim C6, as the code has it. With no result (in particular with no answer) the conclusion
  is null. Otherwise, for a list as long as a JavaScript array can be, the label is Minor,
  Moderate or Severe as the average of the scores 40, 70, 100 is at most 40, at most 70, or
  above 70, and the percent is a number with one decimal within 0.05 of that average: the
  double that the formula yields, rounded by \<^verbatim>\<open>toFixed(1)\<close>.
\<close>

theorem C6_conclusion:
  "calculateConclusion [] = None
   \<and> runDiagnosis rules catalog Map.empty = ([], None)
   \<and> (data \<noteq> [] \<and> length data < 2 ^ 32 \<longrightarrow>
        (\<exists>k::int.
           calculateConclusion data =
             Some \<lparr>percent = of_int k / 10,
                   label = (if averageScore data \<le> 40 then ''Minor''
                            else if averageScore data \<le> 70 then ''Moderate'' else ''Severe'')\<rparr>
           \<and> \<bar>of_int k / 10 - averageScore data\<bar> \<le> 1 / 20))"
proof -
  have "\<exists>k::int.
           calculateConclusion data =
             Some \<lparr>percent = of_int k / 10,
                   label = (if averageScore data \<le> 40 then ''Minor''
                            else if averageScore data \<le> 70 then ''Moderate'' else ''Severe'')\<rparr>
           \<and> \<bar>of_int k / 10 - averageScore data\<bar> \<le> 1 / 20"
    if d: "data \<noteq> []" "length data < 2 ^ 32"
  proof -
    from double_percent_facts [OF d] obtain k :: int where
      l40: "double_percent data \<le> 40 \<longleftrightarrow> averageScore data \<le> 40" and
      l70: "double_percent data \<le> 70 \<longleftrightarrow> averageScore data \<le> 70" and
      k: "toFixed 1 (double_percent data) = of_int k / 10"
         "\<bar>of_int k / 10 - averageScore data\<bar> \<le> 1 / 20"
      by blast
    have "calculateConclusion data =
             Some \<lparr>percent = of_int k / 10,
                   label = (if averageScore data \<le> 40 then ''Minor''
                            else if averageScore data \<le> 70 then ''Moderate'' else ''Severe'')\<rparr>"
      unfolding calculateConclusion_doubles [OF d] k(1) l40 l70 ..
    then show ?thesis using k(2) by blast
  qed
  moreover have "calculateConclusion [] = None" by (simp add: calculateConclusion_def)
  ultimately show ?thesis using runDiagnosis_no_answers [of rules catalog] by blast
qed

lemma eight_average: "averageScore eight_results = 4375 / 100"
  by (simp add: averageScore_def eight_results_def minor_result_def moderate_result_def eval_nat_numeral)

lemma eight_percent: "double_percent eight_results = 4375 / 100"
proof -
  have a: "fl (7 / 16) = 7 / 16"
    using fl_between [of "-2" "7 / 16"] by (simp add: round_even_def power_int_minus)
  have b: "fl (7 / 16 * 100) = 175 / 4"
    using fl_between [of 5 "7 / 16 * 100"] by (simp add: round_even_def power_int_minus)
  have "averageScore eight_results / 100 = 7 / 16" by (simp add: eight_average)
  then have "double_percent eight_results = fl (fl (7 / 16) * 100)"
    by (simp only: double_percent_def)
  then show ?thesis unfolding a b by simp
qed

lemma eight_conclusion:
  "calculateConclusion eight_results = Some \<lparr>percent = 438 / 10, label = ''Moderate''\<rparr>"
proof -
  have "eight_results \<noteq> []" "length eight_results < 2 ^ 32" by (simp_all add: eight_results_def)
  from calculateConclusion_doubles [OF this] show ?thesis
    by (simp add: eight_percent toFixed_def)
qed

lemma five_and_three_average: "averageScore five_and_three = 5125 / 100"
  by (simp add: averageScore_def five_and_three_def minor_result_def moderate_result_def eval_nat_numeral)

lemma five_and_three_percent:
  "double_percent five_and_three = 7212796278210559 / 140737488355328"
proof -
  have a: "fl (41 / 80) = 4616189618054758 / 9007199254740992"
    using fl_between [of "-1" "41 / 80"] by (simp add: round_even_def power_int_minus)
  have b: "fl (4616189618054758 / 9007199254740992 * 100) = 7212796278210559 / 140737488355328"
    using fl_between [of 5 "4616189618054758 / 9007199254740992 * 100"]
    by (simp add: round_even_def power_int_minus)
  have "averageScore five_and_three / 100 = 41 / 80" by (simp add: five_and_three_average)
  then have "double_percent five_and_three = fl (fl (41 / 80) * 100)"
    by (simp only: double_percent_def)
  then show ?thesis unfolding a b .
qed

lemma five_and_three_conclusion:
  "calculateConclusion five_and_three = Some \<lparr>percent = 512 / 10, label = ''Moderate''\<rparr>"
proof -
  have "five_and_three \<noteq> []" "length five_and_three < 2 ^ 32" by (simp_all add: five_and_three_def)
  from calculateConclusion_doubles [OF this] show ?thesis
    by (simp add: five_and_three_percent toFixed_def)
qed

text \<open>
  Claim C6 as stated fails: for seven Minor results and one Moderate result the average is
  43.75, which the doubles compute exactly, and the percent of the conclusion is 43.8.
\<close>

theorem C6_counterexample:
  "calculateConclusion eight_results = Some \<lparr>percent = 438 / 10, label = ''Moderate''\<rparr>
   \<and> averageScore eight_results = 4375 / 100"
  using eight_conclusion eight_average by simp

text \<open>At concrete inputs: for five Minor and three Moderate results the average is 51.25, the
  doubles yield a little less, and the percent is 51.2, within 0.05 of the average all the
  same.\<close>

theorem C6_conclusion_witness:
  "five_and_three \<noteq> [] \<and> length five_and_three < 2 ^ 32
   \<and> calculateConclusion five_and_three = Some \<lparr>percent = 512 / 10, label = ''Moderate''\<rparr>
   \<and> averageScore five_and_three = 5125 / 100
   \<and> \<bar>percent \<lparr>percent = 512 / 10, label = ''Moderate''\<rparr> - averageScore five_and_three\<bar> \<le> 1 / 20"
proof -
  have d: "five_and_three \<noteq> [] \<and> length five_and_three < 2 ^ 32"
    by (simp add: five_and_three_def)
  from C6_conclusion [of "[]" "[]" five_and_three] d obtain k :: int where
    k: "calculateConclusion five_and_three =
          Some \<lparr>percent = of_int k / 10,
                label = (if averageScore five_and_three \<le> 40 then ''Minor''
                         else if averageScore five_and_three \<le> 70 then ''Moderate'' else ''Severe'')\<rparr>"
       "\<bar>of_int k / 10 - averageScore five_and_three\<bar> \<le> 1 / 20"
    by blast
  have "real_of_int k / 10 = 512 / 10" using k(1) by (simp add: five_and_three_conclusion)
  then have "\<bar>512 / 10 - averageScore five_and_three\<bar> \<le> 1 / 20" using k(2) by simp
  then show ?thesis using d five_and_three_conclusion five_and_three_average by simp
qed


section \<open>Properties of the messaging session\<close>

lemma notify_frame:
  "client (notify b s) = client s" "created (notify b s) = created s"
  "connectionAttempts (notify b s) = connectionAttempts s"
  "isCleaningUp (notify b s) = isCleaningUp s" "isConnecting (notify b s) = isConnecting s"
  "published (notify b s) = published s"
  by (simp_all add: notify_def split: option.splits)

lemma connectMqtt_connected:
  assumes "client s = Some c" and "connected c" and "\<not> isCleaningUp s"
  shows "fst (connectMqtt onConnect onMessage thr s) = Some (handle c)"
    and "client (snd (connectMqtt onConnect onMessage thr s)) = Some c"
    and "created (snd (connectMqtt onConnect onMessage thr s)) = created s"
    and "connectionAttempts (snd (connectMqtt onConnect onMessage thr s)) = connectionAttempts s"
    and "isCleaningUp (snd (connectMqtt onConnect onMessage thr s)) = isCleaningUp s"
    and "isConnecting (snd (connectMqtt onConnect onMessage thr s)) = isConnecting s"
  using assms
  by (auto simp: connectMqtt_def Let_def notify_frame split: option.splits)

lemma connect_requests_connected:
  assumes "client s = Some c" and "connected c" and "\<not> isCleaningUp s"
  shows "fst (connect_requests reqs s) = replicate (length reqs) (Some (handle c))
       \<and> client (snd (connect_requests reqs s)) = Some c
       \<and> created (snd (connect_requests reqs s)) = created s
       \<and> connectionAttempts (snd (connect_requests reqs s)) = connectionAttempts s"
  using assms
proof (induction reqs arbitrary: s)
  case Nil
  then show ?case by simp
next
  case (Cons r reqs)
  obtain h s' where step: "connectMqtt (fst r) (snd r) False s = (h, s')"
    by (cases "connectMqtt (fst r) (snd r) False s") auto
  have h: "h = Some (handle c)"
    using connectMqtt_connected(1) [OF Cons.prems, of "fst r" "snd r" False] step by simp
  have c': "client s' = Some c"
    using connectMqtt_connected(2) [OF Cons.prems, of "fst r" "snd r" False] step by simp
  have e': "\<not> isCleaningUp s'"
    using connectMqtt_connected(5) [OF Cons.prems, of "fst r" "snd r" False] step Cons.prems by simp
  have k: "created s' = created s" "connectionAttempts s' = connectionAttempts s"
    using connectMqtt_connected(3,4) [OF Cons.prems, of "fst r" "snd r" False] step by simp_all
  from Cons.IH [OF c' Cons.prems(2) e'] h k step show ?case
    by (auto split: prod.splits)
qed

text \<open>
  Claim C7. The session is in the Connected state when it holds a client whose \<^verbatim>\<open>connected\<close>
  flag is set and no teardown is under way (\<^verbatim>\<open>disconnectMqtt\<close> raises \<^verbatim>\<open>isCleaningUp\<close> and so
  leaves that state at once). There a call of \<^verbatim>\<open>connectMqtt\<close>, whatever callbacks it brings,
  returns the handle of the existing client, keeps that client, calls \<^verbatim>\<open>mqtt.connect\<close> not
  at all and leaves \<^verbatim>\<open>connectionAttempts\<close> as it is; and so does any sequence of such calls,
  each of which receives the same handle.
\<close>

theorem C7_connect_while_connected:
  assumes "client s = Some c" and "connected c" and "\<not> isCleaningUp s"
  shows "fst (connectMqtt onConnect onMessage thr s) = Some (handle c)
       \<and> client (snd (connectMqtt onConnect onMessage thr s)) = Some c
       \<and> created (snd (connectMqtt onConnect onMessage thr s)) = created s
       \<and> connectionAttempts (snd (connectMqtt onConnect onMessage thr s)) = connectionAttempts s
       \<and> fst (connect_requests reqs s) = replicate (length reqs) (Some (handle c))
       \<and> client (snd (connect_requests reqs s)) = Some c
       \<and> created (snd (connect_requests reqs s)) = created s
       \<and> connectionAttempts (snd (connect_requests reqs s)) = connectionAttempts s"
  using connectMqtt_connected(1-4) [OF assms, of onConnect onMessage thr]
    connect_requests_connected [OF assms, of reqs]
  by simp

lemma connected_session_eq:
  "connected_session = \<lparr>client = Some \<lparr>handle = 0, connected = True, listening = True\<rparr>,
     isConnecting = False, isCleaningUp = False, connectionAttempts = 0,
     onConnectionChange = Some 7, onMessageReceived = None, created = 1,
     notified = [(7, True)], published = []\<rparr>"
  by (simp add: connected_session_def connectMqtt_def initialSession_def handle_event_def
      notify_def MAX_RECONNECT_ATTEMPTS_def Let_def)

theorem C7_connect_while_connected_witness:
  "client connected_session = Some \<lparr>handle = 0, connected = True, listening = True\<rparr>
   \<and> \<not> isCleaningUp connected_session
   \<and> fst (connect_requests [(Some 8, None), (None, Some 9), (None, None)] connected_session)
        = [Some 0, Some 0, Some 0]
   \<and> created (snd (connect_requests [(Some 8, None), (None, Some 9), (None, None)] connected_session)) = 1
   \<and> connectionAttempts (snd (connect_requests [(Some 8, None), (None, Some 9), (None, None)] connected_session)) = 0"
proof -
  have a: "client connected_session = Some \<lparr>handle = 0, connected = True, listening = True\<rparr>"
    by (simp add: connected_session_eq)
  have b: "connected \<lparr>handle = 0, connected = True, listening = True\<rparr>" by simp
  have c: "\<not> isCleaningUp connected_session" by (simp add: connected_session_eq)
  from C7_connect_while_connected [OF a b c, of None None False "[(Some 8, None), (None, Some 9), (None, None)]"]
  show ?thesis using a c by (simp add: connected_session_eq eval_nat_numeral)
qed

lemma broker_down_eq:
  "broker_down = \<lparr>client = Some \<lparr>handle = 0, connected = False, listening = True\<rparr>,
     isConnecting = False, isCleaningUp = False, connectionAttempts = 10,
     onConnectionChange = Some 7, onMessageReceived = None, created = 1,
     notified = replicate 9 (7, False), published = []\<rparr>"
  by (simp add: broker_down_def connectMqtt_def initialSession_def handle_event_def
      notify_def MAX_RECONNECT_ATTEMPTS_def Let_def eval_nat_numeral)

text \<open>
  Claim C8 fails on the code. With the broker away, the first attempt and nine rounds of
  \<^verbatim>\<open>close\<close> and \<^verbatim>\<open>reconnect\<close> events bring \<^verbatim>\<open>connectionAttempts\<close> to the ceiling of 10. Further
  \<^verbatim>\<open>reconnect\<close> events are still counted (to 13 here): the listener does not end the client,
  the status callback is told nothing but the \<^verbatim>\<open>false\<close> of every \<^verbatim>\<open>close\<close>, and
  \<^verbatim>\<open>connectMqtt\<close> then returns the live client, since its test of the ceiling stands behind
  the tests for an existing client.
\<close>

theorem C8_reconnect_past_ceiling:
  "MAX_RECONNECT_ATTEMPTS \<le> connectionAttempts broker_down
   \<and> fold handle_event [Close, Reconnect, Close, Reconnect, Close, Reconnect] broker_down
       = broker_down\<lparr>connectionAttempts := 13, notified := replicate 12 (7, False)\<rparr>
   \<and> connectMqtt None None False
         (fold handle_event [Close, Reconnect, Close, Reconnect, Close, Reconnect] broker_down)
       = (Some 0, broker_down\<lparr>connectionAttempts := 13, notified := replicate 12 (7, False)\<rparr>)"
proof -
  have run: "fold handle_event [Close, Reconnect, Close, Reconnect, Close, Reconnect] broker_down
       = broker_down\<lparr>connectionAttempts := 13, notified := replicate 12 (7, False)\<rparr>"
    by (simp add: broker_down_eq handle_event_def notify_def Let_def eval_nat_numeral)
  have ceiling: "MAX_RECONNECT_ATTEMPTS \<le> connectionAttempts broker_down"
    by (simp add: broker_down_eq MAX_RECONNECT_ATTEMPTS_def)
  have again: "connectMqtt None None False
         (broker_down\<lparr>connectionAttempts := 13, notified := replicate 12 (7, False)\<rparr>)
       = (Some 0, broker_down\<lparr>connectionAttempts := 13, notified := replicate 12 (7, False)\<rparr>)"
    by (simp add: broker_down_eq connectMqtt_def Let_def)
  show ?thesis using run ceiling again by simp
qed

text \<open>During a teardown the first guard of \<^verbatim>\<open>connectMqtt\<close> answers \<^verbatim>\<open>null\<close>, whatever the client's
  flag says; nothing is created there either.\<close>

lemma connect_during_teardown:
  assumes "client s = Some c"
  shows "isCleaningUp (disconnectMqtt s)
       \<and> fst (connectMqtt onConnect onMessage thr (disconnectMqtt s)) = None
       \<and> created (snd (connectMqtt onConnect onMessage thr (disconnectMqtt s))) = created s
       \<and> connectionAttempts (snd (connectMqtt onConnect onMessage thr (disconnectMqtt s)))
           = connectionAttempts s"
  using assms by (auto simp: disconnectMqtt_def connectMqtt_def Let_def split: option.splits)

text \<open>Once a teardown has dropped the client of the session whose broker stayed away, the
  test of the ceiling is reached and refuses the new connection.\<close>

lemma connect_after_teardown_refused:
  "connectMqtt None None False (end_callback (disconnectMqtt broker_down))
     = (None, end_callback (disconnectMqtt broker_down))
   \<and> client (end_callback (disconnectMqtt broker_down)) = None
   \<and> connectionAttempts (end_callback (disconnectMqtt broker_down)) = 10"
  by (simp add: broker_down_eq disconnectMqtt_def end_callback_def notify_def connectMqtt_def
      MAX_RECONNECT_ATTEMPTS_def Let_def)

text \<open>What the test of the ceiling does where it is reached, with no client left: the call
  returns \<^verbatim>\<open>null\<close>, creates nothing, counts nothing and calls no callback.\<close>

lemma connect_refused_at_ceiling:
  assumes "client s = None" and "MAX_RECONNECT_ATTEMPTS \<le> connectionAttempts s"
  shows "fst (connectMqtt onConnect onMessage thr s) = None
       \<and> client (snd (connectMqtt onConnect onMessage thr s)) = None
       \<and> created (snd (connectMqtt onConnect onMessage thr s)) = created s
       \<and> connectionAttempts (snd (connectMqtt onConnect onMessage thr s)) = connectionAttempts s
       \<and> notified (snd (connectMqtt onConnect onMessage thr s)) = notified s"
  using assms by (auto simp: connectMqtt_def Let_def split: option.splits)

lemma connectMqtt_published: "published (snd (connectMqtt onConnect onMessage thr s)) = published s"
  by (auto simp: connectMqtt_def Let_def notify_frame split: option.splits)

lemma listener_published: "published (listener ev s) = published s"
  by (cases ev) (simp_all add: notify_frame Let_def)

lemma handle_event_published: "published (handle_event ev s) = published s"
  by (simp add: handle_event_def Let_def listener_published split: option.splits)

lemma events_published: "published (fold handle_event evs s) = published s"
  by (induction evs arbitrary: s) (simp_all add: handle_event_published)

lemma sendAlertPayload_connected:
  "isMqttConnected s \<Longrightarrow>
   sendAlertPayload alertType alertValue err s =
     (Some (\<not> err),
      s\<lparr>published := published s @
           [W1 (case alertType of None \<Rightarrow> ''CRITICAL''
                | Some t \<Rightarrow> if t = [] then ''CRITICAL'' else t) alertValue]\<rparr>)"
  by (auto simp: sendAlertPayload_def isMqttConnected_def split: option.splits)

text \<open>
  Claim C9, as the code has it. With no connected client, the OFF command resolves to false at
  once and nothing is published. The ON command first asks for a connection and waits three
  seconds: if there is still no connected client then, it resolves to false and nothing is
  published; if the client has connected meanwhile, the command is published then and the
  promise resolves to the outcome of that publish.
\<close>

theorem C9_publish_while_not_connected:
  assumes "\<not> isMqttConnected s"
  shows "sendOffSignalToPLC err s = (False, s)
       \<and> (\<not> isMqttConnected (fold handle_event waiting (snd (connectMqtt None None thr s))) \<longrightarrow>
            sendAlertToPLC alertType alertValue thr waiting err s
              = (Some False, fold handle_event waiting (snd (connectMqtt None None thr s)))
            \<and> published (snd (sendAlertToPLC alertType alertValue thr waiting err s)) = published s)
       \<and> (isMqttConnected (fold handle_event waiting (snd (connectMqtt None None thr s))) \<longrightarrow>
            fst (sendAlertToPLC alertType alertValue thr waiting err s) = Some (\<not> err)
            \<and> published (snd (sendAlertToPLC alertType alertValue thr waiting err s))
                = published s @
                    [W1 (case alertType of None \<Rightarrow> ''CRITICAL''
                         | Some t \<Rightarrow> if t = [] then ''CRITICAL'' else t) alertValue])"
proof -
  let ?s' = "fold handle_event waiting (snd (connectMqtt None None thr s))"
  have p: "published ?s' = published s"
    by (simp add: events_published connectMqtt_published)
  have off: "sendOffSignalToPLC err s = (False, s)"
    using assms by (simp add: sendOffSignalToPLC_def)
  have on: "sendAlertToPLC alertType alertValue thr waiting err s
      = sendAlert_after_wait alertType alertValue err ?s'"
    using assms by (simp add: sendAlertToPLC_def)
  have still: "\<not> isMqttConnected ?s' \<Longrightarrow>
      sendAlert_after_wait alertType alertValue err ?s' = (Some False, ?s')"
    by (simp add: sendAlert_after_wait_def)
  have later: "isMqttConnected ?s' \<Longrightarrow>
      sendAlert_after_wait alertType alertValue err ?s' =
        (Some (\<not> err),
         ?s'\<lparr>published := published ?s' @
           [W1 (case alertType of None \<Rightarrow> ''CRITICAL''
                | Some t \<Rightarrow> if t = [] then ''CRITICAL'' else t) alertValue]\<rparr>)"
    by (simp add: sendAlert_after_wait_def sendAlertPayload_connected)
  show ?thesis
    using off on still later p by auto
qed

lemma connecting_session_eq:
  "connecting_session = \<lparr>client = Some \<lparr>handle = 0, connected = False, listening = True\<rparr>,
     isConnecting = True, isCleaningUp = False, connectionAttempts = 1,
     onConnectionChange = Some 7, onMessageReceived = None, created = 1,
     notified = [], published = []\<rparr>"
  by (simp add: connecting_session_def connectMqtt_def initialSession_def
      MAX_RECONNECT_ATTEMPTS_def Let_def)

text \<open>
  Claim C9 as stated fails for ON: sent while the first connection attempt is still under
  way, with the \<^verbatim>\<open>connect\<close> event arriving during the wait, the command is published after the
  wait and the promise resolves to true.
\<close>

theorem C9_counterexample:
  "\<not> isMqttConnected connecting_session
   \<and> fst (sendAlertToPLC (Some ''vibrationRms'') (Some 5) False [Connect] False connecting_session)
       = Some True
   \<and> published (snd (sendAlertToPLC (Some ''vibrationRms'') (Some 5) False [Connect] False
       connecting_session)) = [W1 ''vibrationRms'' (Some 5)]"
  by (simp add: connecting_session_eq isMqttConnected_def sendAlertToPLC_def connectMqtt_def
      handle_event_def notify_def sendAlert_after_wait_def sendAlertPayload_def Let_def)

theorem C9_publish_while_not_connected_witness:
  "\<not> isMqttConnected connecting_session
   \<and> sendOffSignalToPLC False connecting_session = (False, connecting_session)
   \<and> sendAlertToPLC (Some ''vibrationRms'') (Some 5) False [Error] False connecting_session
       = (Some False, connecting_session\<lparr>isConnecting := False\<rparr>)
   \<and> isMqttConnected (fold handle_event [Connect] (snd (connectMqtt None None False connecting_session)))
   \<and> fst (sendAlertToPLC None None False [Connect] False connecting_session) = Some True
   \<and> published (snd (sendAlertToPLC None None False [Connect] False connecting_session))
       = [W1 ''CRITICAL'' None]"
proof -
  have n: "\<not> isMqttConnected connecting_session"
    by (simp add: connecting_session_eq isMqttConnected_def)
  have e: "fold handle_event [Error] (snd (connectMqtt None None False connecting_session))
      = connecting_session\<lparr>isConnecting := False\<rparr>"
    by (simp add: connecting_session_eq connectMqtt_def handle_event_def Let_def)
  have ne: "\<not> isMqttConnected (fold handle_event [Error] (snd (connectMqtt None None False connecting_session)))"
    unfolding e by (simp add: connecting_session_eq isMqttConnected_def)
  have c: "isMqttConnected (fold handle_event [Connect] (snd (connectMqtt None None False connecting_session)))"
    by (simp add: connecting_session_eq connectMqtt_def handle_event_def Let_def isMqttConnected_def notify_def)
  have off: "sendOffSignalToPLC False connecting_session = (False, connecting_session)"
    using C9_publish_while_not_connected [OF n, of False "[]" False None None] by simp
  have on1: "sendAlertToPLC (Some ''vibrationRms'') (Some 5) False [Error] False connecting_session
       = (Some False, connecting_session\<lparr>isConnecting := False\<rparr>)"
    using C9_publish_while_not_connected [OF n, of False "[Error]" False "Some ''vibrationRms''" "Some 5"] ne e
    by simp
  have on2: "fst (sendAlertToPLC None None False [Connect] False connecting_session) = Some True
     \<and> published (snd (sendAlertToPLC None None False [Connect] False connecting_session))
       = [W1 ''CRITICAL'' None]"
    using C9_publish_while_not_connected [OF n, of False "[Connect]" False None None] c
    by (simp add: connecting_session_eq)
  show ?thesis using n off on1 on2 c by simp
qed


section \<open>Properties of the prediction endpoint\<close>

text \<open>Where the degraded mode works: the fetch rejects, the response is not ok, or its body
  is no JSON. The answer is a success with the health score, the status
  \<^verbatim>\<open>unavailable\<close> and an error.\<close>

lemma predictor_failure_degrades:
  assumes "fetched = Rejects msg \<or> (\<exists>status body. fetched = Response False status body)
           \<or> (\<exists>status. fetched = Response True status Unparseable)"
  shows "\<exists>e. POST healthResult readings fetched =
           Json200 \<lparr>success = True, healthScore = healthResult, mlPrediction = None,
                    mlServiceStatus = ''unavailable'', mlServiceError = Some e\<rparr>"
  using assms
  by (auto simp: POST_def call_predictor_def split: json_body.splits option.splits)

text \<open>
  Claim C10 fails on the code for a malformed answer that is valid JSON. An ok response whose
  body is the empty object makes the handler answer with status 500 and no health score;
  an ok response whose body is \<^verbatim>\<open>null\<close> yields the status \<^verbatim>\<open>unavailable\<close> with no error
  message.
\<close>

theorem C10_malformed_answer:
  "POST (87 :: nat) [29 / 10 :: real] (Response True 200 (JsonValue empty_object))
     = InternalServerError500
   \<and> POST (87 :: nat) [29 / 10 :: real] (Response True 200 (JsonNull :: (unit, unit) json_body))
     = Json200 \<lparr>success = True, healthScore = 87, mlPrediction = None,
                mlServiceStatus = ''unavailable'', mlServiceError = None\<rparr>"
  by (simp add: POST_def call_predictor_def empty_object_def)

end
